theory Spec2Isabelle
  imports Complex_Main
begin

section \<open>The video queue of the auto-poster GUI (main.py)\<close>

text \<open>
  The program is one class, \<open>ModernSocialMediaGUI\<close>. Its data are the list
  \<open>self.videos\<close> of video dictionaries, the dictionary \<open>self.credentials\<close> and the
  widgets. A video dictionary is a mutable object that the queue, the editor form and
  the upload threads share, so the model keeps the objects in a store and the queue as a
  list of references into it.
\<close>

subsection \<open>Data\<close>

type_synonym ref = nat

text \<open>
  The value of \<open>video['status']\<close>; the code assigns only the four string literals
  \<open>'pending'\<close>, \<open>'uploading'\<close>, \<open>'completed'\<close> and \<open>'failed'\<close>.
\<close>

datatype status = Pending | Uploading | Completed | Failed

text \<open>
  The dictionary built in \<open>add_videos\<close>; \<open>vid\<close> is its key \<open>'id'\<close>. Every video
  dictionary has exactly these nine keys: \<open>video.update\<close> in \<open>save_video_changes\<close>
  assigns five of them and adds none.
\<close>

record video =
  vid :: int
  path :: string
  name :: string
  title :: string
  description :: string
  tags :: "string list"
  platforms :: "string list"
  privacy :: string
  status :: status

text \<open>
  Values decoded from the configuration file by \<open>json.load\<close>. A dictionary is an
  association list in insertion order. Arrays and floating-point numbers, which
  \<open>save_config\<close> never writes, are not part of the model.
\<close>

datatype jval = JNull | JBool bool | JNum int | JStr string | JObj "(string \<times> jval) list"

datatype exn =
  TclError | ValueError | TypeError | AttributeError | FileNotFoundError | OSError

datatype thread = UploadThread ref | UploadAllThread "ref list"

text \<open>
  What the program does to the outside, in the order it does it: \<open>time.sleep\<close> (in
  milliseconds), the calls that move the progress bar (\<open>set\<close> of the CustomTkinter
  bar, \<open>configure(value=...)\<close> of the ttk bar), message boxes (by title) and
  \<open>threading.Thread(...).start()\<close>.
\<close>

datatype effect = Slept nat | BarSet rat | BarValue nat | Dialog string | Started thread

text \<open>
  The state of the application object. \<open>heap\<close> holds the video dictionaries,
  \<open>next_ref\<close> is the next unused reference. The widget tree is reduced to the text of
  the status label and the value of the progress bar. \<open>tk_faults\<close> is the
  environment's answer to the Tk calls still to come, one entry per call: \<open>True\<close> makes
  that call raise \<open>TclError\<close>; once the list is used up no call raises.
  \<open>self.current_video\<close>, which \<open>select_video\<close> writes and nothing reads, the
  editor form and the settings window are left out; what the form holds is an argument
  of \<open>save_video_changes\<close>.
\<close>

record gui =
  heap :: "ref \<Rightarrow> video"
  next_ref :: ref
  videos :: "ref list"
  credentials :: "(string \<times> jval) list"
  status_label :: string
  progress_bar :: rat
  tk_faults :: "bool list"
  trace :: "effect list"

subsection \<open>Statements, sequencing and exceptions\<close>

text \<open>
  A statement either completes or raises; in both cases it leaves a state behind, since
  the Tk main loop reports an exception of a callback and goes on, and a handler runs on
  the state the \<open>try\<close> block left.
\<close>

datatype outcome = Normal gui | Raised exn gui

fun state_of :: "outcome \<Rightarrow> gui" where
  "state_of (Normal s) = s"
| "state_of (Raised e s) = s"

fun seq :: "(gui \<Rightarrow> outcome) list \<Rightarrow> gui \<Rightarrow> outcome" where
  "seq [] s = Normal s"
| "seq (f # fs) s = (case f s of Normal s' \<Rightarrow> seq fs s' | Raised e s' \<Rightarrow> Raised e s')"

definition try_except :: "(gui \<Rightarrow> outcome) \<Rightarrow> (exn \<Rightarrow> gui \<Rightarrow> outcome) \<Rightarrow> gui \<Rightarrow> outcome" where
  "try_except body handler s =
     (case body s of Normal s' \<Rightarrow> Normal s' | Raised e s' \<Rightarrow> handler e s')"

definition tk_call :: "gui \<Rightarrow> outcome" where
  "tk_call s =
     (case tk_faults s of
        [] \<Rightarrow> Normal s
      | b # bs \<Rightarrow> if b then Raised TclError (s\<lparr>tk_faults := bs\<rparr>)
                  else Normal (s\<lparr>tk_faults := bs\<rparr>))"

definition emit :: "effect \<Rightarrow> gui \<Rightarrow> outcome" where
  "emit e s = Normal (s\<lparr>trace := trace s @ [e]\<rparr>)"

subsection \<open>Python's library functions\<close>

text \<open>
  \<open>str.split(',')\<close>: one piece more than there are commas, empty pieces kept. The
  result is never empty, so the first branch of the \<open>case\<close> is never taken.
\<close>

fun split_comma :: "string \<Rightarrow> string list" where
  "split_comma [] = [[]]"
| "split_comma (c # cs) =
     (if c = CHR '','' then [] # split_comma cs
      else (case split_comma cs of [] \<Rightarrow> [[c]] | p # ps \<Rightarrow> (c # p) # ps))"

text \<open>
  The characters \<open>str.strip()\<close> removes, among the code points below 256 (a character
  of the model stands for the code point of the same number): tab to carriage return,
  the four separators 28 to 31, the space, NEL and the no-break space.
\<close>

definition is_space :: "char \<Rightarrow> bool" where
  "is_space c = (let n = of_char c :: nat in
     (9 \<le> n \<and> n \<le> 13) \<or> (28 \<le> n \<and> n \<le> 32) \<or> n = 133 \<or> n = 160)"

definition strip :: "string \<Rightarrow> string" where
  "strip s = rev (dropWhile is_space (rev (dropWhile is_space s)))"

text \<open>\<open>sep.join(xs)\<close>.\<close>

fun join :: "string \<Rightarrow> string list \<Rightarrow> string" where
  "join sep [] = []"
| "join sep [x] = x"
| "join sep (x # y # ys) = x @ sep @ join sep (y # ys)"

text \<open>
  \<open>list.remove(x)\<close>: deletes the first element equal to \<open>x\<close>; \<open>None\<close> stands for the
  \<open>ValueError\<close> it raises when there is none.
\<close>

fun list_remove :: "('a \<Rightarrow> bool) \<Rightarrow> 'a list \<Rightarrow> 'a list option" where
  "list_remove eq [] = None"
| "list_remove eq (x # xs) =
     (if eq x then Some xs else map_option ((#) x) (list_remove eq xs))"

text \<open>\<open>str(n)\<close> for the length of a list.\<close>

fun str_nat :: "nat \<Rightarrow> string" where
  "str_nat n =
     (if n < 10 then [char_of (48 + n)]
      else str_nat (n div 10) @ [char_of (48 + n mod 10)])"

text \<open>\<open>d[k] = v\<close> and \<open>d.update(other)\<close> on dictionaries in insertion order.\<close>

fun dict_set :: "string \<Rightarrow> jval \<Rightarrow> (string \<times> jval) list \<Rightarrow> (string \<times> jval) list" where
  "dict_set k v [] = [(k, v)]"
| "dict_set k v ((k', v') # d) =
     (if k' = k then (k, v) # d else (k', v') # dict_set k v d)"

definition dict_update :: "(string \<times> jval) list \<Rightarrow> (string \<times> jval) list \<Rightarrow> (string \<times> jval) list" where
  "dict_update d other = fold (\<lambda>(k, v). dict_set k v) other d"

subsection \<open>Widgets\<close>

text \<open>
  \<open>refresh_video_list\<close>, \<open>show_default_editor_message\<close> and
  \<open>root.update_idletasks\<close> rebuild or redraw widgets from the state and change no
  field of the model; each is one Tk call that may raise. (What \<open>refresh_video_list\<close>
  reads, it prints into labels: titles, statuses and platform names.) \<open>update_status\<close> finds
  \<open>self.status_label\<close>, which \<open>create_widgets\<close> made before any callback can run,
  and sets its text.
\<close>

definition refresh_video_list :: "gui \<Rightarrow> outcome" where
  "refresh_video_list = tk_call"

definition show_default_editor_message :: "gui \<Rightarrow> outcome" where
  "show_default_editor_message = tk_call"

definition update_idletasks :: "gui \<Rightarrow> outcome" where
  "update_idletasks = tk_call"

definition update_status :: "string \<Rightarrow> gui \<Rightarrow> outcome" where
  "update_status message = seq [tk_call, \<lambda>s. Normal (s\<lparr>status_label := message\<rparr>)]"

definition messagebox :: "string \<Rightarrow> gui \<Rightarrow> outcome" where
  "messagebox box_title = seq [tk_call, emit (Dialog box_title)]"

definition sleep :: "nat \<Rightarrow> gui \<Rightarrow> outcome" where
  "sleep ms = emit (Slept ms)"

subsection \<open>The queue: \<open>add_videos\<close> and \<open>remove_video\<close>\<close>

text \<open>
  One iteration of the loop in \<open>add_videos\<close>: a new dictionary, appended to
  \<open>self.videos\<close>. \<open>Path(file_path).name\<close> and \<open>Path(file_path).stem\<close> belong to
  pathlib and depend on the platform; they are the parameters \<open>path_name\<close> and
  \<open>path_stem\<close>.
\<close>

definition append_video :: "(string \<Rightarrow> string) \<Rightarrow> (string \<Rightarrow> string) \<Rightarrow> string \<Rightarrow> gui \<Rightarrow> gui" where
  "append_video path_name path_stem file_path s =
     (let v = \<lparr> vid = int (length (videos s)) + 1,
                path = file_path,
                name = path_name file_path,
                title = path_stem file_path,
                description = [],
                tags = [],
                platforms = [''youtube''],
                privacy = ''public'',
                status = Pending \<rparr>
      in s\<lparr> heap := (heap s)(next_ref s := v),
            next_ref := Suc (next_ref s),
            videos := videos s @ [next_ref s] \<rparr>)"

text \<open>\<open>files\<close> is what the file dialog returned (empty when the user cancels).\<close>

definition add_videos :: "(string \<Rightarrow> string) \<Rightarrow> (string \<Rightarrow> string) \<Rightarrow> string list \<Rightarrow> gui \<Rightarrow> outcome" where
  "add_videos path_name path_stem files =
     seq [tk_call,
          \<lambda>s. Normal (fold (append_video path_name path_stem) files s),
          refresh_video_list,
          update_status (''Added '' @ str_nat (length files) @ '' video(s)'')]"

text \<open>
  \<open>self.videos.remove(video)\<close> compares dictionaries by value: it deletes the first
  entry of the queue whose dictionary equals the one of \<open>video\<close>.
\<close>

definition videos_remove :: "ref \<Rightarrow> gui \<Rightarrow> outcome" where
  "videos_remove r s =
     (case list_remove (\<lambda>r'. heap s r' = heap s r) (videos s) of
        None \<Rightarrow> Raised ValueError s
      | Some vs \<Rightarrow> Normal (s\<lparr>videos := vs\<rparr>))"

text \<open>\<open>confirm\<close> is the user's answer to \<open>messagebox.askyesno\<close>.\<close>

definition remove_video :: "ref \<Rightarrow> bool \<Rightarrow> gui \<Rightarrow> outcome" where
  "remove_video r confirm =
     seq [messagebox ''Confirm'',
          \<lambda>s. if confirm
               then seq [videos_remove r,
                         refresh_video_list,
                         show_default_editor_message,
                         \<lambda>s. update_status (''Removed: '' @ name (heap s r)) s] s
               else Normal s]"

subsection \<open>The editor: \<open>save_video_changes\<close>\<close>

text \<open>
  What the widgets of the editor form hold when the user presses Save:
  \<open>title_entry.get()\<close>, \<open>desc_text.get("1.0", "end-1c")\<close>, \<open>tags_entry.get()\<close>,
  the check boxes of \<open>platform_vars\<close> in the order the form created them, and
  \<open>privacy_var.get()\<close>.
\<close>

record form =
  title_entry :: string
  desc_text :: string
  tags_entry :: string
  platform_vars :: "(string \<times> bool) list"
  privacy_var :: string

text \<open>\<open>[tag.strip() for tag in tags_text.split(',') if tag.strip()]\<close>\<close>

definition parse_tags :: "string \<Rightarrow> string list" where
  "parse_tags tags_text = map strip (filter (\<lambda>tag. strip tag \<noteq> []) (split_comma tags_text))"

text \<open>\<open>[platform for platform, var in self.platform_vars.items() if var.get()]\<close>\<close>

definition checked_platforms :: "(string \<times> bool) list \<Rightarrow> string list" where
  "checked_platforms vars = map fst (filter snd vars)"

definition video_update :: "ref \<Rightarrow> form \<Rightarrow> gui \<Rightarrow> outcome" where
  "video_update r f s =
     Normal (s\<lparr>heap := (heap s)(r := (heap s r)
        \<lparr> title := title_entry f,
          description := desc_text f,
          tags := parse_tags (tags_entry f),
          platforms := checked_platforms (platform_vars f),
          privacy := privacy_var f \<rparr>)\<rparr>)"

text \<open>
  The body of the \<open>try\<close>: the reads of the widgets (one Tk call each), the update of
  the dictionary, the redraw. Both branches on \<open>CTK_AVAILABLE\<close> are the same code.
\<close>

definition save_body :: "ref \<Rightarrow> form \<Rightarrow> gui \<Rightarrow> outcome" where
  "save_body r f =
     seq [tk_call, tk_call, tk_call,
          seq (map (\<lambda>var. tk_call) (platform_vars f)),
          tk_call,
          video_update r f,
          refresh_video_list,
          update_status ''Changes saved'']"

definition save_video_changes :: "ref \<Rightarrow> form \<Rightarrow> gui \<Rightarrow> outcome" where
  "save_video_changes r f = try_except (save_body r f) (\<lambda>e. messagebox ''Error'')"

subsection \<open>Uploading: \<open>upload_single_video\<close> and \<open>upload_all_videos\<close>\<close>

definition set_status :: "ref \<Rightarrow> status \<Rightarrow> gui \<Rightarrow> outcome" where
  "set_status r st s = Normal (s\<lparr>heap := (heap s)(r := (heap s r)\<lparr>status := st\<rparr>)\<rparr>)"

text \<open>
  \<open>self.progress_bar.set(q)\<close> of the CustomTkinter bar, and
  \<open>self.progress_bar.configure(value=v)\<close> of the ttk bar. \<open>i / 100\<close> is a Python
  float; the model keeps the exact quotient.
\<close>

definition bar_set :: "rat \<Rightarrow> gui \<Rightarrow> outcome" where
  "bar_set q = seq [tk_call, \<lambda>s. Normal (s\<lparr>progress_bar := q\<rparr>), emit (BarSet q)]"

definition bar_configure :: "nat \<Rightarrow> gui \<Rightarrow> outcome" where
  "bar_configure v = seq [tk_call, \<lambda>s. Normal (s\<lparr>progress_bar := of_nat v\<rparr>), emit (BarValue v)]"

definition progress :: "bool \<Rightarrow> nat \<Rightarrow> gui \<Rightarrow> outcome" where
  "progress ctk i = (if ctk then bar_set (of_nat i / 100) else bar_configure i)"

text \<open>
  The body of \<open>upload_thread\<close>, statement by statement. \<open>ctk\<close> is the module's
  \<open>CTK_AVAILABLE\<close>. The thread runs beside the main loop, so other operations may
  come between two of its statements; \<open>upload_begin\<close>, \<open>upload_tick\<close> and
  \<open>upload_complete\<close> are the stretches before, inside and after the loop.
\<close>

definition upload_begin :: "ref \<Rightarrow> gui \<Rightarrow> outcome" where
  "upload_begin r =
     seq [set_status r Uploading,
          refresh_video_list,
          \<lambda>s. update_status (''Uploading: '' @ name (heap s r)) s]"

definition upload_tick :: "bool \<Rightarrow> nat \<Rightarrow> gui \<Rightarrow> outcome" where
  "upload_tick ctk i = seq [sleep 50, progress ctk i, update_idletasks]"

definition upload_complete :: "bool \<Rightarrow> ref \<Rightarrow> gui \<Rightarrow> outcome" where
  "upload_complete ctk r =
     seq [set_status r Completed,
          refresh_video_list,
          \<lambda>s. update_status (''Completed: '' @ name (heap s r)) s,
          if ctk then bar_set 0 else bar_configure 0]"

text \<open>
  The body of the \<open>try\<close> is these 103 stretches in order: the three statements before
  the loop, the 101 iterations, the four statements after it. \<open>upload_after k\<close> is the
  body up to the end of its \<open>k\<close>-th stretch: the state it leaves is what an operation
  of the main loop finds when it runs at that moment.
\<close>

definition upload_stretches :: "bool \<Rightarrow> ref \<Rightarrow> (gui \<Rightarrow> outcome) list" where
  "upload_stretches ctk r =
     [upload_begin r] @ map (upload_tick ctk) [0..<101] @ [upload_complete ctk r]"

definition upload_body :: "bool \<Rightarrow> ref \<Rightarrow> gui \<Rightarrow> outcome" where
  "upload_body ctk r = seq (upload_stretches ctk r)"

definition upload_after :: "nat \<Rightarrow> bool \<Rightarrow> ref \<Rightarrow> gui \<Rightarrow> outcome" where
  "upload_after k ctk r = seq (take k (upload_stretches ctk r))"

definition upload_failed :: "ref \<Rightarrow> gui \<Rightarrow> outcome" where
  "upload_failed r = seq [set_status r Failed, refresh_video_list, messagebox ''Upload Error'']"

definition upload_thread :: "bool \<Rightarrow> ref \<Rightarrow> gui \<Rightarrow> outcome" where
  "upload_thread ctk r = try_except (upload_body ctk r) (\<lambda>e. upload_failed r)"

text \<open>\<open>upload_single_video\<close> itself only starts the thread.\<close>

definition upload_single_video :: "ref \<Rightarrow> gui \<Rightarrow> outcome" where
  "upload_single_video r = emit (Started (UploadThread r))"

text \<open>\<open>[v for v in self.videos if v['status'] == 'pending']\<close>\<close>

definition pending_videos :: "gui \<Rightarrow> ref list" where
  "pending_videos s = filter (\<lambda>v. status (heap s v) = Pending) (videos s)"

definition upload_all_thread :: "ref list \<Rightarrow> gui \<Rightarrow> outcome" where
  "upload_all_thread pending =
     seq (concat (map (\<lambda>v. [upload_single_video v, sleep 1000]) pending))"

definition upload_all_videos :: "gui \<Rightarrow> outcome" where
  "upload_all_videos s =
     (if pending_videos s = [] then messagebox ''Info'' s
      else emit (Started (UploadAllThread (pending_videos s))) s)"

text \<open>
  The function a started thread runs, the \<open>target\<close> of its \<open>threading.Thread\<close>:
  the closure \<open>upload_thread\<close> over the video, or the closure \<open>upload_all_thread\<close>
  over the list of pending videos.
\<close>

fun thread_body :: "bool \<Rightarrow> thread \<Rightarrow> gui \<Rightarrow> outcome" where
  "thread_body ctk (UploadThread r) = upload_thread ctk r"
| "thread_body ctk (UploadAllThread pending) = upload_all_thread pending"

subsection \<open>Configuration: \<open>__init__\<close> and \<open>load_config\<close>\<close>

text \<open>
  What \<open>open("gui_config.json", "r")\<close> and \<open>json.load\<close> do: the file is not there
  (\<open>FileNotFoundError\<close>), it cannot be opened for another reason, its text is not
  JSON, or it decodes to a value.
\<close>

datatype file_read = NoSuchFile | Unreadable | Undecodable | Parsed jval

text \<open>\<open>d.get(k, dflt)\<close>\<close>

definition dict_get :: "string \<Rightarrow> jval \<Rightarrow> (string \<times> jval) list \<Rightarrow> jval" where
  "dict_get k dflt d = (case map_of d k of None \<Rightarrow> dflt | Some v \<Rightarrow> v)"

text \<open>
  \<open>self.credentials.update(v)\<close>: a dictionary is merged in; a string is iterated
  character by character, and a character is no key-value pair; the other values cannot
  be iterated.
\<close>

definition update_credentials :: "jval \<Rightarrow> gui \<Rightarrow> outcome" where
  "update_credentials v s =
     (case v of
        JObj other \<Rightarrow> Normal (s\<lparr>credentials := dict_update (credentials s) other\<rparr>)
      | JStr t \<Rightarrow> if t = [] then Normal s else Raised ValueError s
      | _ \<Rightarrow> Raised TypeError s)"

definition read_config :: "file_read \<Rightarrow> gui \<Rightarrow> outcome" where
  "read_config rd s =
     (case rd of
        NoSuchFile \<Rightarrow> Raised FileNotFoundError s
      | Unreadable \<Rightarrow> Raised OSError s
      | Undecodable \<Rightarrow> Raised ValueError s
      | Parsed (JObj config) \<Rightarrow> update_credentials (dict_get ''credentials'' (JObj []) config) s
      | Parsed _ \<Rightarrow> Raised AttributeError s)"

definition load_config :: "file_read \<Rightarrow> gui \<Rightarrow> outcome" where
  "load_config rd =
     try_except (read_config rd)
       (\<lambda>e s. if e = FileNotFoundError then Normal s else Raised e s)"

definition default_credentials :: "(string \<times> jval) list" where
  "default_credentials =
     [(''youtube'', JObj [(''client_id'', JStr []), (''client_secret'', JStr []),
                          (''authenticated'', JBool False)]),
      (''instagram'', JObj [(''username'', JStr []), (''password'', JStr []),
                            (''authenticated'', JBool False)])]"

definition blank_video :: video where
  "blank_video = \<lparr> vid = 0, path = [], name = [], title = [], description = [], tags = [],
                    platforms = [], privacy = [], status = Pending \<rparr>"

text \<open>
  The state \<open>__init__\<close> builds before it calls \<open>load_config\<close>: no video, the
  credentials with empty strings, the status label \<open>Ready\<close>. No reference has been
  handed out yet, so what the store holds is irrelevant. \<open>bar\<close> is the value the
  toolkit gives a new progress bar.
\<close>

definition init_gui :: "rat \<Rightarrow> bool list \<Rightarrow> gui" where
  "init_gui bar faults =
     \<lparr> heap = (\<lambda>r. blank_video), next_ref = 0, videos = [],
       credentials = default_credentials, status_label = ''Ready'',
       progress_bar = bar, tk_faults = faults, trace = [] \<rparr>"

definition startup :: "rat \<Rightarrow> bool list \<Rightarrow> file_read \<Rightarrow> outcome" where
  "startup bar faults rd = load_config rd (init_gui bar faults)"

subsection \<open>Reading outcomes\<close>

text \<open>The exception a statement ended with, if any.\<close>

fun raised :: "outcome \<Rightarrow> exn option" where
  "raised (Normal s) = None"
| "raised (Raised e s) = Some e"

text \<open>A statement keeps a component \<open>g\<close> of the state: it is the same afterwards,
  whether the statement completes or raises.\<close>

definition keeps :: "(gui \<Rightarrow> 'a) \<Rightarrow> (gui \<Rightarrow> outcome) \<Rightarrow> bool" where
  "keeps g f = (\<forall>s. g (state_of (f s)) = g s)"

subsection \<open>Concrete runs\<close>

text \<open>
  pathlib on a file name without directory part and with one dot: the name is the whole
  string, the stem is what precedes the dot.
\<close>

definition bare_name :: "string \<Rightarrow> string" where
  "bare_name p = p"

definition bare_stem :: "string \<Rightarrow> string" where
  "bare_stem p = takeWhile (\<lambda>c. c \<noteq> CHR ''.'') p"

text \<open>The dictionary \<open>add_videos\<close> builds for a file when the queue holds \<open>n\<close> videos.\<close>

definition new_video :: "(string \<Rightarrow> string) \<Rightarrow> (string \<Rightarrow> string) \<Rightarrow> nat \<Rightarrow> string \<Rightarrow> video" where
  "new_video pn ps n file_path =
     \<lparr> vid = int n + 1, path = file_path, name = pn file_path, title = ps file_path,
       description = [], tags = [], platforms = [''youtube''], privacy = ''public'',
       status = Pending \<rparr>"

text \<open>
  Two files are added, the first is removed (the user confirms), a third is added.
\<close>

definition id_collision_run :: gui where
  "id_collision_run =
     state_of (add_videos bare_name bare_stem [''c.mp4'']
       (state_of (remove_video 0 True
         (state_of (add_videos bare_name bare_stem [''a.mp4'', ''b.mp4''] (init_gui 0 []))))))"

text \<open>One file is added to the empty queue; then its upload thread runs up to the loop.\<close>

definition clip_queue :: gui where
  "clip_queue = state_of (add_videos bare_name bare_stem [''clip.mp4''] (init_gui 0 []))"

definition clip_uploading :: gui where
  "clip_uploading = state_of (upload_begin 0 clip_queue)"

text \<open>An editor form as the user may have filled it in.\<close>

definition new_form :: form where
  "new_form = \<lparr> title_entry = ''Holiday'', desc_text = ''Day one'',
       tags_entry = ''sea, sun, sea'',
       platform_vars = [(''youtube'', False), (''instagram'', True), (''tiktok'', False)],
       privacy_var = ''private'' \<rparr>"

text \<open>The dictionary after \<open>video.update\<close> with the values of the form.\<close>

definition edited :: "form \<Rightarrow> video \<Rightarrow> video" where
  "edited f v = v\<lparr> title := title_entry f, description := desc_text f,
       tags := parse_tags (tags_entry f), platforms := checked_platforms (platform_vars f),
       privacy := privacy_var f \<rparr>"

text \<open>The statements of \<open>save_body\<close> before and after the update of the dictionary.\<close>

definition save_reads :: "form \<Rightarrow> (gui \<Rightarrow> outcome) list" where
  "save_reads f = [tk_call, tk_call, tk_call, seq (map (\<lambda>var. tk_call) (platform_vars f)), tk_call]"

definition save_redraw :: "(gui \<Rightarrow> outcome) list" where
  "save_redraw = [refresh_video_list, update_status ''Changes saved'']"

text \<open>Two files are added to the empty queue.\<close>

definition pair_queue :: gui where
  "pair_queue = state_of (add_videos bare_name bare_stem [''a.mp4'', ''b.mp4''] (init_gui 0 []))"

text \<open>The videos for which an upload thread was started, in the order of the starts.\<close>

fun launched :: "effect list \<Rightarrow> ref list" where
  "launched [] = []"
| "launched (Started (UploadThread v) # es) = v # launched es"
| "launched (e # es) = launched es"

text \<open>All threads started, in order.\<close>

fun threads_started :: "effect list \<Rightarrow> thread list" where
  "threads_started [] = []"
| "threads_started (Started t # es) = t # threads_started es"
| "threads_started (e # es) = threads_started es"

text \<open>What \<open>upload_all_thread\<close> does for a list of videos: start, sleep one second, for each.\<close>

definition launches :: "ref list \<Rightarrow> effect list" where
  "launches vs = concat (map (\<lambda>v. [Started (UploadThread v), Slept 1000]) vs)"

text \<open>Two videos in the queue; the upload of the first has started.\<close>

definition mixed_queue :: gui where
  "mixed_queue = state_of (upload_begin 0 pair_queue)"

text \<open>The call that moves the progress bar in iteration \<open>i\<close>, and the value the bar then holds.\<close>

definition bar_effect :: "bool \<Rightarrow> nat \<Rightarrow> effect" where
  "bar_effect ctk i = (if ctk then BarSet (of_nat i / 100) else BarValue i)"

definition bar_value :: "bool \<Rightarrow> nat \<Rightarrow> rat" where
  "bar_value ctk i = (if ctk then of_nat i / 100 else of_nat i)"

text \<open>The effects of the first \<open>n\<close> iterations of the loop of \<open>upload_thread\<close>.\<close>

definition ticks :: "bool \<Rightarrow> nat \<Rightarrow> effect list" where
  "ticks ctk n = concat (map (\<lambda>i. [Slept 50, bar_effect ctk i]) [0..<n])"

text \<open>
  The positions the progress bar was moved to, as fractions of its length: the
  CustomTkinter bar takes the fraction itself, the ttk bar a value out of its maximum,
  which \<open>create_status_bar\<close> leaves at Tk's default of 100.
\<close>

fun shown :: "effect list \<Rightarrow> rat list" where
  "shown [] = []"
| "shown (BarSet q # es) = q # shown es"
| "shown (BarValue v # es) = (of_nat v / 100) # shown es"
| "shown (e # es) = shown es"

text \<open>The time spent in \<open>time.sleep\<close>, in milliseconds.\<close>

fun slept :: "effect list \<Rightarrow> nat" where
  "slept [] = 0"
| "slept (Slept ms # es) = ms + slept es"
| "slept (e # es) = slept es"

text \<open>A change of the state applied to the state an outcome carries.\<close>

fun map_outcome :: "(gui \<Rightarrow> gui) \<Rightarrow> outcome \<Rightarrow> outcome" where
  "map_outcome g (Normal s) = Normal (g s)"
| "map_outcome g (Raised e s) = Raised e (g s)"

text \<open>Another platform selection for a video; other credentials.\<close>

definition set_platforms :: "ref \<Rightarrow> string list \<Rightarrow> gui \<Rightarrow> gui" where
  "set_platforms r p s = s\<lparr>heap := (heap s)(r := (heap s r)\<lparr>platforms := p\<rparr>)\<rparr>"

definition set_credentials :: "(string \<times> jval) list \<Rightarrow> gui \<Rightarrow> gui" where
  "set_credentials c s = s\<lparr>credentials := c\<rparr>"

text \<open>A statement does not read what \<open>g\<close> changes: running it after \<open>g\<close> is
  running it before.\<close>

definition commutes :: "(gui \<Rightarrow> gui) \<Rightarrow> (gui \<Rightarrow> outcome) \<Rightarrow> bool" where
  "commutes g f = (\<forall>s. f (g s) = map_outcome g (f s))"

text \<open>The one-video queue when the next Tk call is going to fail.\<close>

definition clip_faulty :: gui where
  "clip_faulty = clip_queue\<lparr>tk_faults := [True]\<rparr>"

text \<open>How far a status is along \<open>pending\<close>, \<open>uploading\<close>, \<open>completed\<close> or \<open>failed\<close>.\<close>

fun rank :: "status \<Rightarrow> nat" where
  "rank Pending = 0"
| "rank Uploading = 1"
| "rank Completed = 2"
| "rank Failed = 2"

text \<open>The one-video queue after its upload thread has run: to the end, and into the handler.\<close>

definition clip_completed :: gui where
  "clip_completed = state_of (upload_thread True 0 clip_queue)"

definition clip_failed :: gui where
  "clip_failed = state_of (upload_thread True 0 clip_faulty)"

text \<open>Upload Now is pressed on the video whose upload has completed, or has failed.\<close>

definition clip_again :: gui where
  "clip_again = state_of (upload_single_video 0 clip_completed)"

definition clip_retry :: gui where
  "clip_retry = state_of (upload_single_video 0 clip_failed)"

section \<open>Properties\<close>

subsection \<open>Sequencing\<close>

lemma seq_append:
  "seq (fs @ gs) s = (case seq fs s of Normal s' \<Rightarrow> seq gs s' | Raised e s' \<Rightarrow> Raised e s')"
  by (induction fs arbitrary: s) (auto split: outcome.splits)

lemma keeps_seq: "(\<And>f. f \<in> set fs \<Longrightarrow> keeps g f) \<Longrightarrow> keeps g (seq fs)"
proof (induction fs)
  case Nil
  show ?case by (simp add: keeps_def)
next
  case (Cons f fs)
  have kf: "keeps g f" and ks: "keeps g (seq fs)"
    using Cons by simp_all
  show ?case
    unfolding keeps_def
  proof
    fix s
    show "g (state_of (seq (f # fs) s)) = g s"
    proof (cases "f s")
      case (Normal s')
      then have "g s' = g s" using kf by (auto simp: keeps_def dest: spec[of _ s])
      moreover have "g (state_of (seq fs s')) = g s'" using ks by (simp add: keeps_def)
      ultimately show ?thesis using Normal by simp
    next
      case (Raised e s')
      then have "g s' = g s" using kf by (auto simp: keeps_def dest: spec[of _ s])
      then show ?thesis using Raised by simp
    qed
  qed
qed

lemma keeps_try:
  assumes "keeps g body" and "\<And>e. keeps g (handler e)"
  shows "keeps g (try_except body handler)"
  unfolding keeps_def
proof
  fix s
  show "g (state_of (try_except body handler s)) = g s"
  proof (cases "body s")
    case (Normal s')
    then show ?thesis using assms(1) by (auto simp: keeps_def try_except_def dest: spec[of _ s])
  next
    case (Raised e s')
    then have "g s' = g s" using assms(1) by (auto simp: keeps_def dest: spec[of _ s])
    moreover have "g (state_of (handler e s')) = g s'" using assms(2) by (simp add: keeps_def)
    ultimately show ?thesis using Raised by (simp add: try_except_def)
  qed
qed

lemma keeps_tk_call:
  "keeps heap tk_call" "keeps videos tk_call" "keeps credentials tk_call"
  "keeps next_ref tk_call" "keeps trace tk_call" "keeps status_label tk_call"
  "keeps progress_bar tk_call"
  by (auto simp: keeps_def tk_call_def split: list.splits)

lemma keeps_emit:
  "keeps heap (emit e)" "keeps videos (emit e)" "keeps credentials (emit e)"
  "keeps next_ref (emit e)" "keeps tk_faults (emit e)" "keeps status_label (emit e)"
  "keeps progress_bar (emit e)"
  by (auto simp: keeps_def emit_def)

subsection \<open>Configuration\<close>

text \<open>
  C9. When the configuration file is absent, \<open>load_config\<close> returns without an
  exception and changes nothing; at startup the credentials are then the ones
  \<open>__init__\<close> wrote, with every string empty.
\<close>

theorem load_config_absent:
  "load_config NoSuchFile s = Normal s
   \<and> raised (startup bar faults NoSuchFile) = None
   \<and> credentials (state_of (startup bar faults NoSuchFile)) = default_credentials"
  by (simp add: load_config_def read_config_def try_except_def startup_def init_gui_def)

subsection \<open>The queue\<close>

lemma append_video_simps:
  "videos (append_video pn ps p s) = videos s @ [next_ref s]"
  "next_ref (append_video pn ps p s) = Suc (next_ref s)"
  "heap (append_video pn ps p s) = (heap s)(next_ref s := new_video pn ps (length (videos s)) p)"
  "credentials (append_video pn ps p s) = credentials s"
  "tk_faults (append_video pn ps p s) = tk_faults s"
  "trace (append_video pn ps p s) = trace s"
  "status_label (append_video pn ps p s) = status_label s"
  "progress_bar (append_video pn ps p s) = progress_bar s"
  by (simp_all add: append_video_def new_video_def Let_def)

lemma fold_append_video_frame:
  "credentials (fold (append_video pn ps) files s) = credentials s"
  "tk_faults (fold (append_video pn ps) files s) = tk_faults s"
  "trace (fold (append_video pn ps) files s) = trace s"
  "status_label (fold (append_video pn ps) files s) = status_label s"
  "progress_bar (fold (append_video pn ps) files s) = progress_bar s"
  by (induction files arbitrary: s; simp add: append_video_simps)+

lemma fold_append_video_next:
  "next_ref (fold (append_video pn ps) files s) = next_ref s + length files"
  by (induction files arbitrary: s) (simp_all add: append_video_simps)

lemma fold_append_video_videos:
  "videos (fold (append_video pn ps) files s) = videos s @ [next_ref s ..< next_ref s + length files]"
proof (induction files arbitrary: s)
  case Nil
  show ?case by simp
next
  case (Cons p files)
  show ?case
    by (simp add: Cons append_video_simps upt_conv_Cons del: upt_Suc)
qed

lemma fold_append_video_old:
  "r < next_ref s \<Longrightarrow> heap (fold (append_video pn ps) files s) r = heap s r"
  by (induction files arbitrary: s) (simp_all add: append_video_simps)

lemma fold_append_video_new:
  "i < length files \<Longrightarrow>
   heap (fold (append_video pn ps) files s) (next_ref s + i)
     = new_video pn ps (length (videos s) + i) (files ! i)"
proof (induction files arbitrary: s i)
  case Nil
  then show ?case by simp
next
  case (Cons p files)
  show ?case
  proof (cases i)
    case 0
    then show ?thesis
      by (simp add: fold_append_video_old append_video_simps)
  next
    case (Suc j)
    then have "j < length files" using Cons.prems by simp
    from Cons.IH[OF this, of "append_video pn ps p s"] Suc
    show ?thesis by (simp add: append_video_simps)
  qed
qed

lemma fold_append_video_beyond:
  "next_ref s + length files \<le> r \<Longrightarrow> heap (fold (append_video pn ps) files s) r = heap s r"
  by (induction files arbitrary: s) (simp_all add: append_video_simps)

lemma keeps_widgets:
  "keeps heap refresh_video_list" "keeps videos refresh_video_list"
  "keeps next_ref refresh_video_list" "keeps credentials refresh_video_list"
  "keeps trace refresh_video_list" "keeps progress_bar refresh_video_list"
  "keeps heap show_default_editor_message" "keeps videos show_default_editor_message"
  "keeps next_ref show_default_editor_message" "keeps credentials show_default_editor_message"
  "keeps heap update_idletasks" "keeps videos update_idletasks"
  "keeps next_ref update_idletasks" "keeps credentials update_idletasks"
  by (simp_all add: refresh_video_list_def show_default_editor_message_def
        update_idletasks_def keeps_tk_call)

lemma keeps_update_status:
  "keeps heap (update_status m)" "keeps videos (update_status m)"
  "keeps next_ref (update_status m)" "keeps credentials (update_status m)"
  "keeps trace (update_status m)" "keeps progress_bar (update_status m)"
  unfolding update_status_def
  by (rule keeps_seq; auto simp: keeps_tk_call; simp add: keeps_def)+

lemma keeps_messagebox:
  "keeps heap (messagebox t)" "keeps videos (messagebox t)"
  "keeps next_ref (messagebox t)" "keeps credentials (messagebox t)"
  "keeps status_label (messagebox t)" "keeps progress_bar (messagebox t)"
  unfolding messagebox_def
  by (rule keeps_seq; auto simp: keeps_tk_call keeps_emit)+

lemma keepsD: "keeps g f \<Longrightarrow> g (state_of (f s)) = g s"
  by (simp add: keeps_def)

declare str_nat.simps [simp del]

lemma tk_call_state: "state_of (tk_call s) = s\<lparr>tk_faults := tl (tk_faults s)\<rparr>"
  by (cases "tk_faults s") (simp_all add: tk_call_def)

lemma tk_call_ok:
  "raised (tk_call s) = None \<Longrightarrow> tk_call s = Normal (s\<lparr>tk_faults := tl (tk_faults s)\<rparr>)"
  by (cases "tk_call s") (use tk_call_state[of s] in simp_all)

lemma tk_call_fail:
  "raised (tk_call s) \<noteq> None \<Longrightarrow> tk_call s = Raised TclError (s\<lparr>tk_faults := tl (tk_faults s)\<rparr>)"
  by (cases "tk_faults s") (auto simp: tk_call_def split: if_splits)

lemma add_videos_fail:
  assumes "raised (tk_call s) \<noteq> None"
  shows "heap (state_of (add_videos pn ps files s)) = heap s"
    and "videos (state_of (add_videos pn ps files s)) = videos s"
    and "next_ref (state_of (add_videos pn ps files s)) = next_ref s"
  by (simp_all add: add_videos_def tk_call_fail[OF assms])

lemma append_video_faults:
  "append_video pn ps p (s\<lparr>tk_faults := fs\<rparr>) = (append_video pn ps p s)\<lparr>tk_faults := fs\<rparr>"
  by (simp add: append_video_def Let_def)

lemma fold_append_video_faults:
  "fold (append_video pn ps) files (s\<lparr>tk_faults := fs\<rparr>)
     = (fold (append_video pn ps) files s)\<lparr>tk_faults := fs\<rparr>"
  by (induction files arbitrary: s) (simp_all add: append_video_faults)

lemma add_videos_ok:
  assumes "raised (tk_call s) = None"
  shows "heap (state_of (add_videos pn ps files s)) = heap (fold (append_video pn ps) files s)"
    and "videos (state_of (add_videos pn ps files s)) = videos s @ [next_ref s ..< next_ref s + length files]"
    and "next_ref (state_of (add_videos pn ps files s)) = next_ref s + length files"
proof -
  define rest where "rest = seq [refresh_video_list,
      update_status (''Added '' @ str_nat (length files) @ '' video(s)'')]"
  have k: "keeps heap rest" "keeps videos rest" "keeps next_ref rest"
    unfolding rest_def by (rule keeps_seq; auto simp: keeps_widgets keeps_update_status)+
  have eq: "add_videos pn ps files s
      = rest ((fold (append_video pn ps) files s)\<lparr>tk_faults := tl (tk_faults s)\<rparr>)"
    by (simp add: add_videos_def tk_call_ok[OF assms] rest_def fold_append_video_faults)
  show "videos (state_of (add_videos pn ps files s)) = videos s @ [next_ref s ..< next_ref s + length files]"
    unfolding eq by (simp add: keepsD[OF k(2)] fold_append_video_videos)
  show "next_ref (state_of (add_videos pn ps files s)) = next_ref s + length files"
    unfolding eq by (simp add: keepsD[OF k(3)] fold_append_video_next)
  show "heap (state_of (add_videos pn ps files s)) = heap (fold (append_video pn ps) files s)"
    unfolding eq by (simp add: keepsD[OF k(1)])
qed

lemmas run_defs = add_videos_def remove_video_def tk_call_def init_gui_def append_video_def
  refresh_video_list_def show_default_editor_message_def update_status_def messagebox_def
  emit_def videos_remove_def Let_def

text \<open>
  C4. Identifiers are not unique once a video has been removed: \<open>add_videos\<close> numbers
  a new video with the length of the queue plus one. After adding \<open>a.mp4\<close> and
  \<open>b.mp4\<close>, removing \<open>a.mp4\<close> and adding \<open>c.mp4\<close>, the queue holds \<open>b.mp4\<close> and
  \<open>c.mp4\<close>, both with the identifier 2.
\<close>

theorem add_videos_id_collision:
  "videos id_collision_run = [1, 2]
   \<and> path (heap id_collision_run 1) = ''b.mp4'' \<and> vid (heap id_collision_run 1) = 2
   \<and> path (heap id_collision_run 2) = ''c.mp4'' \<and> vid (heap id_collision_run 2) = 2"
  by (simp add: id_collision_run_def run_defs)

text \<open>
  C6. Every video that \<open>add_videos\<close> puts into the queue has the status \<open>pending\<close>
  and the platform list \<open>['youtube']\<close>; the new entries follow the old ones, one per
  selected file and in the order of the selection, unless the file dialog itself failed.
\<close>

theorem add_videos_defaults:
  "let s' = state_of (add_videos pn ps files s); new = drop (length (videos s)) (videos s') in
     videos s' = videos s @ new
   \<and> (\<forall>r\<in>set new. status (heap s' r) = Pending \<and> platforms (heap s' r) = [''youtube''])
   \<and> (raised (tk_call s) = None \<longrightarrow> map (\<lambda>r. path (heap s' r)) new = files)"
proof (cases "raised (tk_call s) = None")
  case False
  then show ?thesis using add_videos_fail(2)[OF False, of pn ps files] by (auto simp: Let_def)
next
  case True
  have new: "heap (fold (append_video pn ps) files s) (next_ref s + i)
      = new_video pn ps (length (videos s) + i) (files ! i)" if "i < length files" for i
    using that by (rule fold_append_video_new)
  have a: "\<forall>r\<in>set [next_ref s ..< next_ref s + length files].
      status (heap (fold (append_video pn ps) files s) r) = Pending
      \<and> platforms (heap (fold (append_video pn ps) files s) r) = [''youtube'']"
  proof
    fix r
    assume "r \<in> set [next_ref s ..< next_ref s + length files]"
    then have "r - next_ref s < length files" and "r = next_ref s + (r - next_ref s)"
      by auto
    then show "status (heap (fold (append_video pn ps) files s) r) = Pending
      \<and> platforms (heap (fold (append_video pn ps) files s) r) = [''youtube'']"
      using new[of "r - next_ref s"] by (simp add: new_video_def)
  qed
  have "map (\<lambda>r. path (heap (fold (append_video pn ps) files s) r))
          [next_ref s ..< next_ref s + length files] = files"
    by (rule nth_equalityI) (simp_all add: new new_video_def)
  with a show ?thesis
    using True by (simp add: Let_def add_videos_ok)
qed

theorem add_videos_defaults_witness:
  "raised (tk_call (init_gui 0 [])) = None
   \<and> drop (length (videos (init_gui 0 [])))
        (videos (state_of (add_videos bare_name bare_stem [''clip.mp4''] (init_gui 0 [])))) = [0]
   \<and> status (heap (state_of (add_videos bare_name bare_stem [''clip.mp4''] (init_gui 0 []))) 0) = Pending
   \<and> platforms (heap (state_of (add_videos bare_name bare_stem [''clip.mp4''] (init_gui 0 []))) 0)
       = [''youtube'']
   \<and> path (heap (state_of (add_videos bare_name bare_stem [''clip.mp4''] (init_gui 0 []))) 0)
       = ''clip.mp4''"
  using add_videos_defaults[of bare_name bare_stem "[''clip.mp4'']" "init_gui 0 []"]
  by (simp add: run_defs)

lemma list_remove_Some:
  "r \<in> set xs \<Longrightarrow> \<exists>ys. list_remove (\<lambda>r'. f r' = f r) xs = Some ys"
  by (induction xs) auto

lemma list_remove_map:
  "list_remove (\<lambda>r'. f r' = f r) xs = Some ys \<Longrightarrow> map f ys = remove1 (f r) (map f xs)"
  by (induction xs arbitrary: ys) (auto split: if_splits)

lemma list_remove_length:
  "list_remove eq xs = Some ys \<Longrightarrow> Suc (length ys) = length xs"
  by (induction xs arbitrary: ys) (auto split: if_splits)

lemma outcome_case_id [simp]:
  "(case x of Normal s' \<Rightarrow> Normal s' | Raised e s' \<Rightarrow> Raised e s') = x"
  "(case x of Normal s' \<Rightarrow> seq [] s' | Raised e s' \<Rightarrow> Raised e s') = x"
  by (cases x; simp)+

lemma messagebox_ok:
  "raised (tk_call s) = None \<Longrightarrow>
   messagebox t s = Normal (s\<lparr>tk_faults := tl (tk_faults s), trace := trace s @ [Dialog t]\<rparr>)"
  by (simp add: messagebox_def tk_call_ok emit_def)

lemma messagebox_fail:
  "raised (tk_call s) \<noteq> None \<Longrightarrow>
   messagebox t s = Raised TclError (s\<lparr>tk_faults := tl (tk_faults s)\<rparr>)"
  by (simp add: messagebox_def tk_call_fail)

subsection \<open>Removing\<close>

text \<open>
  C2, as stated, fails: \<open>remove_video\<close> does not look at the status. After the upload
  of \<open>clip.mp4\<close> has started and before it has completed, a confirmed removal raises
  nothing and empties the queue.
\<close>

theorem remove_video_uploading_counterexample:
  "status (heap clip_uploading 0) = Uploading \<and> videos clip_uploading = [0]
   \<and> raised (remove_video 0 True clip_uploading) = None
   \<and> videos (state_of (remove_video 0 True clip_uploading)) = []"
  by (simp add: clip_uploading_def clip_queue_def upload_begin_def set_status_def run_defs)

text \<open>
  C2, amended. For a video of the queue, whatever its status: when the user declines
  the dialog the queue stays as it is; when the dialog opens and the user confirms,
  the first entry whose dictionary equals the one of the video leaves the queue and no
  dictionary changes; when no Tk call fails the removal ends without an exception.
\<close>

theorem remove_video_any_status:
  assumes "r \<in> set (videos s)"
  shows "videos (state_of (remove_video r False s)) = videos s
    \<and> (raised (tk_call s) = None \<longrightarrow>
         heap (state_of (remove_video r True s)) = heap s
       \<and> Suc (length (videos (state_of (remove_video r True s)))) = length (videos s)
       \<and> map (heap s) (videos (state_of (remove_video r True s)))
           = remove1 (heap s r) (map (heap s) (videos s)))
    \<and> (tk_faults s = [] \<longrightarrow> raised (remove_video r True s) = None)"
proof (intro conjI impI)
  have "keeps videos (remove_video r False)"
    unfolding remove_video_def
    by (rule keeps_seq) (auto simp: keeps_messagebox, simp add: keeps_def)
  then show "videos (state_of (remove_video r False s)) = videos s"
    by (rule keepsD)
next
  obtain ys where ys: "list_remove (\<lambda>r'. heap s r' = heap s r) (videos s) = Some ys"
    using list_remove_Some[OF assms] by blast
  define rest where "rest = seq [refresh_video_list, show_default_editor_message,
       \<lambda>s. update_status (''Removed: '' @ name (heap s r)) s]"
  have k: "keeps heap rest" "keeps videos rest"
    unfolding rest_def
    by (rule keeps_seq; auto simp: keeps_widgets; simp add: keeps_def keepsD[OF keeps_update_status(1)]
        keepsD[OF keeps_update_status(2)])+
  {
    assume ok: "raised (tk_call s) = None"
    have eq: "remove_video r True s
        = rest (s\<lparr>tk_faults := tl (tk_faults s), trace := trace s @ [Dialog ''Confirm''],
                  videos := ys\<rparr>)"
      by (simp add: remove_video_def messagebox_ok[OF ok] videos_remove_def ys rest_def)
    show "heap (state_of (remove_video r True s)) = heap s"
      unfolding eq by (simp add: keepsD[OF k(1)])
    have v: "videos (state_of (remove_video r True s)) = ys"
      unfolding eq by (simp add: keepsD[OF k(2)])
    show "Suc (length (videos (state_of (remove_video r True s)))) = length (videos s)"
      unfolding v using ys by (rule list_remove_length)
    show "map (heap s) (videos (state_of (remove_video r True s)))
           = remove1 (heap s r) (map (heap s) (videos s))"
      unfolding v using ys by (rule list_remove_map)
  }
  {
    assume "tk_faults s = []"
    then show "raised (remove_video r True s) = None"
      by (simp add: run_defs ys)
  }
qed

theorem remove_video_any_status_witness:
  "0 \<in> set (videos clip_uploading) \<and> status (heap clip_uploading 0) = Uploading
   \<and> raised (tk_call clip_uploading) = None \<and> tk_faults clip_uploading = []
   \<and> videos (state_of (remove_video 0 False clip_uploading)) = [0]
   \<and> videos (state_of (remove_video 0 True clip_uploading)) = []
   \<and> raised (remove_video 0 True clip_uploading) = None"
  using remove_video_any_status[of 0 clip_uploading]
  by (simp add: clip_uploading_def clip_queue_def upload_begin_def set_status_def run_defs)

subsection \<open>Saving\<close>

lemma video_update_edited:
  "video_update r f s = Normal (s\<lparr>heap := (heap s)(r := edited f (heap s r))\<rparr>)"
  by (simp add: video_update_def edited_def)

lemma save_body_split:
  "save_body r f = seq (save_reads f @ video_update r f # save_redraw)"
  by (simp add: save_body_def save_reads_def save_redraw_def)

lemma keeps_save_reads: "keeps heap (seq (save_reads f))" "keeps videos (seq (save_reads f))"
  unfolding save_reads_def
  by (rule keeps_seq; auto simp: keeps_tk_call intro!: keeps_seq)+

lemma keeps_save_redraw: "keeps heap (seq save_redraw)" "keeps videos (seq save_redraw)"
  unfolding save_redraw_def
  by (rule keeps_seq; auto simp: keeps_widgets keeps_update_status)+

lemma save_body_cases:
  obtains (stopped) "raised (save_body r f s) \<noteq> None" "heap (state_of (save_body r f s)) = heap s"
  | (updated) "heap (state_of (save_body r f s)) = (heap s)(r := edited f (heap s r))"
proof (cases "seq (save_reads f) s")
  case (Normal s1)
  have h: "heap s1 = heap s"
    using keepsD[OF keeps_save_reads(1), of f s] Normal by simp
  have "save_body r f s = seq save_redraw (s1\<lparr>heap := (heap s1)(r := edited f (heap s1 r))\<rparr>)"
    by (simp add: save_body_split seq_append Normal video_update_edited)
  then have "heap (state_of (save_body r f s)) = (heap s)(r := edited f (heap s r))"
    by (simp add: keepsD[OF keeps_save_redraw(1)] h)
  then show ?thesis by (rule updated)
next
  case (Raised e s1)
  have h: "heap s1 = heap s"
    using keepsD[OF keeps_save_reads(1), of f s] Raised by simp
  have "save_body r f s = Raised e s1"
    by (simp add: save_body_split seq_append Raised)
  then show ?thesis using h by (intro stopped) simp_all
qed

lemma save_body_videos: "videos (state_of (save_body r f s)) = videos s"
proof -
  have kv: "keeps videos (video_update r f)"
    by (simp add: keeps_def video_update_def)
  have "keeps videos (save_body r f)"
    unfolding save_body_def
    by (rule keeps_seq)
       (auto simp: keeps_tk_call keeps_widgets keeps_update_status kv intro!: keeps_seq)
  then show ?thesis by (rule keepsD)
qed

lemma save_video_changes_heap:
  "heap (state_of (save_video_changes r f s)) = heap (state_of (save_body r f s))"
  by (cases "save_body r f s")
     (simp_all add: save_video_changes_def try_except_def keepsD[OF keeps_messagebox(1)])

lemma save_video_changes_videos:
  "videos (state_of (save_video_changes r f s)) = videos s"
  using save_body_videos[of r f s]
  by (cases "save_body r f s")
     (simp_all add: save_video_changes_def try_except_def keepsD[OF keeps_messagebox(2)])

text \<open>
  C10. \<open>save_video_changes\<close> leaves the keys \<open>id\<close>, \<open>path\<close>, \<open>name\<close> and
  \<open>status\<close> of the video as they were, changes no other dictionary and does not touch
  the queue; when the body of its \<open>try\<close> completes, the other five keys hold the values
  of the form.
\<close>

theorem save_video_changes_frame:
  "let s' = state_of (save_video_changes r f s) in
     vid (heap s' r) = vid (heap s r) \<and> path (heap s' r) = path (heap s r)
   \<and> name (heap s' r) = name (heap s r) \<and> status (heap s' r) = status (heap s r)
   \<and> (\<forall>r'. r' \<noteq> r \<longrightarrow> heap s' r' = heap s r')
   \<and> videos s' = videos s
   \<and> (raised (save_body r f s) = None \<longrightarrow>
        title (heap s' r) = title_entry f \<and> description (heap s' r) = desc_text f
      \<and> tags (heap s' r) = parse_tags (tags_entry f)
      \<and> platforms (heap s' r) = checked_platforms (platform_vars f)
      \<and> privacy (heap s' r) = privacy_var f)"
  by (cases r f s rule: save_body_cases)
     (auto simp: Let_def save_video_changes_heap save_video_changes_videos edited_def)

lemmas save_defs = save_video_changes_def save_body_def try_except_def video_update_def
  parse_tags_def checked_platforms_def strip_def is_space_def new_form_def

theorem save_video_changes_frame_witness:
  "(1::nat) \<noteq> 0 \<and> raised (save_body 0 new_form pair_queue) = None
   \<and> videos pair_queue = [0, 1]
   \<and> heap (state_of (save_video_changes 0 new_form pair_queue)) 1 = heap pair_queue 1
   \<and> vid (heap (state_of (save_video_changes 0 new_form pair_queue)) 0) = 1
   \<and> status (heap (state_of (save_video_changes 0 new_form pair_queue)) 0) = Pending
   \<and> title (heap pair_queue 0) = ''a''
   \<and> title (heap (state_of (save_video_changes 0 new_form pair_queue)) 0) = ''Holiday''
   \<and> tags (heap (state_of (save_video_changes 0 new_form pair_queue)) 0) = [''sea'', ''sun'', ''sea'']
   \<and> platforms (heap (state_of (save_video_changes 0 new_form pair_queue)) 0) = [''instagram'']"
  using save_video_changes_frame[of 0 new_form pair_queue]
  by (simp add: pair_queue_def save_defs run_defs bare_stem_def bare_name_def)

lemma seq_tk_calls_ok:
  "tk_faults s = [] \<Longrightarrow> seq (map (\<lambda>x. tk_call) xs) s = Normal s"
  by (induction xs) (simp_all add: tk_call_def)

text \<open>
  C3, as stated, fails: \<open>save_video_changes\<close> does not look at the status. On the
  video whose upload has started it raises nothing, shows no error box and replaces the
  title.
\<close>

theorem save_video_changes_uploading_counterexample:
  "status (heap clip_uploading 0) = Uploading
   \<and> title (heap clip_uploading 0) = ''clip''
   \<and> raised (save_video_changes 0 new_form clip_uploading) = None
   \<and> trace (state_of (save_video_changes 0 new_form clip_uploading)) = trace clip_uploading
   \<and> title (heap (state_of (save_video_changes 0 new_form clip_uploading)) 0) = ''Holiday''"
  by (simp add: clip_uploading_def clip_queue_def upload_begin_def set_status_def save_defs
        run_defs bare_stem_def bare_name_def)

text \<open>
  C3, amended. Whatever the status of the video, when no Tk call fails
  \<open>save_video_changes\<close> ends without an exception and without an error box, the
  status label reads \<open>Changes saved\<close>, title, description, tags, platforms and privacy
  hold the values of the form, and the status is the one the video had.
\<close>

theorem save_video_changes_any_status:
  assumes "tk_faults s = []"
  shows "let s' = state_of (save_video_changes r f s) in
     raised (save_video_changes r f s) = None
   \<and> trace s' = trace s
   \<and> status_label s' = ''Changes saved''
   \<and> title (heap s' r) = title_entry f \<and> description (heap s' r) = desc_text f
   \<and> tags (heap s' r) = parse_tags (tags_entry f)
   \<and> platforms (heap s' r) = checked_platforms (platform_vars f)
   \<and> privacy (heap s' r) = privacy_var f
   \<and> status (heap s' r) = status (heap s r)"
  using assms
  by (simp add: save_video_changes_def save_body_def try_except_def video_update_def
        seq_tk_calls_ok tk_call_def refresh_video_list_def update_status_def Let_def)

theorem save_video_changes_any_status_witness:
  "tk_faults clip_uploading = [] \<and> status (heap clip_uploading 0) = Uploading
   \<and> raised (save_video_changes 0 new_form clip_uploading) = None
   \<and> title (heap (state_of (save_video_changes 0 new_form clip_uploading)) 0) = ''Holiday''
   \<and> privacy (heap (state_of (save_video_changes 0 new_form clip_uploading)) 0) = ''private''
   \<and> status (heap (state_of (save_video_changes 0 new_form clip_uploading)) 0) = Uploading"
  using save_video_changes_any_status[of clip_uploading 0 new_form]
  by (simp add: clip_uploading_def clip_queue_def upload_begin_def set_status_def save_defs
        run_defs bare_stem_def bare_name_def)

subsection \<open>Uploading all\<close>

lemma threads_started_append:
  "threads_started (es @ fs) = threads_started es @ threads_started fs"
  by (induction es rule: threads_started.induct) simp_all

lemma launched_launches: "launched (launches vs) = vs"
  by (induction vs) (simp_all add: launches_def)

lemma upload_all_thread_trace:
  "upload_all_thread vs s = Normal (s\<lparr>trace := trace s @ launches vs\<rparr>)"
proof (induction vs arbitrary: s)
  case Nil
  show ?case by (simp add: upload_all_thread_def launches_def)
next
  case (Cons v vs)
  have "upload_all_thread (v # vs) s
      = upload_all_thread vs (s\<lparr>trace := trace s @ [Started (UploadThread v), Slept 1000]\<rparr>)"
    by (simp add: upload_all_thread_def upload_single_video_def sleep_def emit_def)
  then show ?case by (simp add: Cons launches_def)
qed

lemma upload_all_videos_none:
  assumes "pending_videos s = []"
  shows "heap (state_of (upload_all_videos s)) = heap s"
    and "videos (state_of (upload_all_videos s)) = videos s"
    and "threads_started (trace (state_of (upload_all_videos s))) = threads_started (trace s)"
proof -
  have eq: "upload_all_videos s = messagebox ''Info'' s"
    using assms by (simp add: upload_all_videos_def)
  show "heap (state_of (upload_all_videos s)) = heap s"
    by (simp add: eq keepsD[OF keeps_messagebox(1)])
  show "videos (state_of (upload_all_videos s)) = videos s"
    by (simp add: eq keepsD[OF keeps_messagebox(2)])
  show "threads_started (trace (state_of (upload_all_videos s))) = threads_started (trace s)"
    by (cases "raised (tk_call s) = None")
       (simp_all add: eq messagebox_ok messagebox_fail threads_started_append)
qed

text \<open>
  C8. \<open>upload_all_videos\<close> changes no dictionary and not the queue. It selects the
  videos whose status is \<open>pending\<close> when it is called, in queue order; when there is
  none it starts no thread, otherwise it starts one thread with that list. Whenever that
  thread runs, it starts the upload of each selected video in that order and sleeps one
  second after each start, and does nothing else.
\<close>

theorem upload_all_videos_launches:
  "let pending = filter (\<lambda>v. status (heap s v) = Pending) (videos s);
       s1 = state_of (upload_all_videos s)
   in heap s1 = heap s \<and> videos s1 = videos s
    \<and> threads_started (trace s1)
        = threads_started (trace s) @ (if pending = [] then [] else [UploadAllThread pending])
    \<and> upload_all_thread pending s2
        = Normal (s2\<lparr>trace := trace s2 @ concat (map (\<lambda>v. [Started (UploadThread v), Slept 1000]) pending)\<rparr>)
    \<and> launched (concat (map (\<lambda>v. [Started (UploadThread v), Slept 1000]) pending)) = pending"
proof (cases "pending_videos s = []")
  case True
  then show ?thesis
    using upload_all_videos_none[OF True] upload_all_thread_trace[of "[]" s2]
    by (simp add: Let_def pending_videos_def launches_def)
next
  case False
  then have "upload_all_videos s
      = Normal (s\<lparr>trace := trace s @ [Started (UploadAllThread (pending_videos s))]\<rparr>)"
    by (simp add: upload_all_videos_def emit_def)
  then show ?thesis
    using False upload_all_thread_trace[of "pending_videos s" s2]
      launched_launches[of "pending_videos s"]
    by (simp add: Let_def pending_videos_def launches_def threads_started_append)
qed

lemma mixed_queue_pending: "pending_videos mixed_queue = [1]"
  by (simp add: mixed_queue_def pair_queue_def pending_videos_def upload_begin_def
        set_status_def run_defs)

lemma mixed_queue_trace: "trace mixed_queue = []"
  by (simp add: mixed_queue_def pair_queue_def upload_begin_def set_status_def run_defs)

theorem upload_all_videos_launches_witness:
  "status (heap mixed_queue 0) = Uploading
   \<and> status (heap mixed_queue 1) = Pending
   \<and> videos mixed_queue = [0, 1]
   \<and> threads_started (trace (state_of (upload_all_videos mixed_queue))) = [UploadAllThread [1]]
   \<and> upload_all_thread [1] mixed_queue
       = Normal (mixed_queue\<lparr>trace := [Started (UploadThread 1), Slept 1000]\<rparr>)
   \<and> threads_started (trace (state_of (upload_all_videos (init_gui 0 [])))) = []"
proof -
  have p: "filter (\<lambda>v. status (heap mixed_queue v) = Pending) (videos mixed_queue) = [1]"
    using mixed_queue_pending by (simp add: pending_videos_def)
  have q: "filter (\<lambda>v. status (heap (init_gui 0 []) v) = Pending) (videos (init_gui 0 [])) = []"
    by (simp add: init_gui_def)
  have a: "status (heap mixed_queue 0) = Uploading" "status (heap mixed_queue 1) = Pending"
      "videos mixed_queue = [0, 1]"
    by (simp_all add: mixed_queue_def pair_queue_def upload_begin_def set_status_def run_defs)
  have b: "trace (init_gui 0 []) = []" by (simp add: init_gui_def)
  show ?thesis
    using upload_all_videos_launches[of mixed_queue mixed_queue]
      upload_all_videos_launches[of "init_gui 0 []" mixed_queue] a
    unfolding Let_def p q by (simp add: mixed_queue_trace b)
qed

subsection \<open>Tags\<close>

lemma split_comma_nonempty: "split_comma s \<noteq> []"
  by (induction s) (auto split: list.splits)

lemma split_comma_no_comma: "p \<in> set (split_comma s) \<Longrightarrow> CHR '','' \<notin> set p"
  by (induction s arbitrary: p) (auto split: list.splits if_splits)

lemma split_comma_plain: "CHR '','' \<notin> set x \<Longrightarrow> split_comma x = [x]"
  by (induction x) auto

lemma split_comma_piece:
  "CHR '','' \<notin> set x \<Longrightarrow> split_comma (x @ CHR '','' # ys) = x # split_comma ys"
  by (induction x) auto

lemma set_strip: "set (strip s) \<subseteq> set s"
  unfolding strip_def
  by (metis (no_types, lifting) set_dropWhileD set_rev subsetI)

lemma strip_clean:
  assumes "strip s \<noteq> []"
  shows "\<not> is_space (hd (strip s))" and "\<not> is_space (last (strip s))"
proof -
  define y where "y = dropWhile is_space s"
  define w where "w = dropWhile is_space (rev y)"
  have s: "strip s = rev w" by (simp add: strip_def y_def w_def)
  then have w: "w \<noteq> []" using assms by simp
  then have "\<not> is_space (hd w)" unfolding w_def by (rule hd_dropWhile)
  then show "\<not> is_space (last (strip s))" using w by (simp add: s last_rev)
  have y: "y \<noteq> []" using w by (auto simp: w_def)
  then have hy: "\<not> is_space (hd y)" unfolding y_def by (rule hd_dropWhile)
  obtain pre where "rev y = pre @ w"
    unfolding w_def by (metis takeWhile_dropWhile_id)
  then have "y = rev w @ rev pre" by (metis rev_append rev_rev_ident)
  then have "hd y = hd (rev w)" using w by simp
  then show "\<not> is_space (hd (strip s))" using hy by (simp add: s)
qed

lemma strip_fixed:
  assumes "t \<noteq> []" "\<not> is_space (hd t)" "\<not> is_space (last t)"
  shows "strip t = t"
proof -
  have "dropWhile is_space t = t" using assms by (cases t) auto
  moreover have "dropWhile is_space (rev t) = rev t"
    using assms by (cases "rev t") (auto simp: last_rev[symmetric] hd_rev)
  ultimately show ?thesis by (simp add: strip_def)
qed

lemma strip_idem: "strip (strip s) = strip s"
proof (cases "strip s = []")
  case True
  have "strip [] = []" by (simp add: strip_def)
  then show ?thesis using True by simp
next
  case False
  then show ?thesis using strip_clean[OF False] by (intro strip_fixed)
qed

lemma strip_lead_space:
  "strip (CHR '' '' # t) = strip t"
  by (simp add: strip_def is_space_def)

lemma split_comma_join:
  assumes "\<forall>t\<in>set (t0 # ts). CHR '','' \<notin> set t" "CHR '','' \<notin> set pre"
  shows "split_comma (pre @ join '', '' (t0 # ts)) = (pre @ t0) # map ((#) CHR '' '') ts"
  using assms
proof (induction ts arbitrary: pre t0)
  case Nil
  then show ?case by (simp add: split_comma_plain)
next
  case (Cons t ts)
  have "pre @ join '', '' (t0 # t # ts) = (pre @ t0) @ CHR '','' # ('' '' @ join '', '' (t # ts))"
    by simp
  moreover have "CHR '','' \<notin> set (pre @ t0)" using Cons.prems by simp
  ultimately have "split_comma (pre @ join '', '' (t0 # t # ts))
      = (pre @ t0) # split_comma ('' '' @ join '', '' (t # ts))"
    by (metis split_comma_piece)
  moreover have "split_comma ('' '' @ join '', '' (t # ts)) = ('' '' @ t) # map ((#) CHR '' '') ts"
    using Cons.prems by (intro Cons.IH) simp_all
  ultimately show ?case by simp
qed

lemma parse_tags_join:
  assumes "\<forall>t\<in>set ts. t \<noteq> [] \<and> strip t = t \<and> CHR '','' \<notin> set t"
  shows "parse_tags (join '', '' ts) = ts"
proof (cases ts)
  case Nil
  then show ?thesis by (simp add: parse_tags_def strip_def)
next
  case (Cons t0 ts')
  have sp: "split_comma (join '', '' (t0 # ts')) = t0 # map ((#) CHR '' '') ts'"
    using split_comma_join[of t0 ts' "[]"] assms Cons by simp
  have a: "map strip (t0 # map ((#) CHR '' '') ts') = t0 # ts'"
    using assms Cons by (auto simp: strip_lead_space intro: map_idI)
  have b: "filter (\<lambda>tag. strip tag \<noteq> []) (t0 # map ((#) CHR '' '') ts') = t0 # map ((#) CHR '' '') ts'"
    using assms Cons by (auto simp: strip_lead_space filter_id_conv)
  show ?thesis by (simp only: parse_tags_def Cons sp a b)
qed

lemma parse_tags_clean:
  assumes "t \<in> set (parse_tags txt)"
  shows "t \<noteq> []" "strip t = t" "CHR '','' \<notin> set t"
proof -
  obtain p where p: "p \<in> set (split_comma txt)" "strip p \<noteq> []" "t = strip p"
    using assms by (auto simp: parse_tags_def)
  show "t \<noteq> []" using p by simp
  show "strip t = t" using p by (simp add: strip_idem)
  show "CHR '','' \<notin> set t"
    using p split_comma_no_comma[OF p(1)] set_strip[of p] by auto
qed

lemma save_video_changes_ok_heap:
  assumes "tk_faults s = []"
  shows "heap (state_of (save_video_changes r f s)) = (heap s)(r := edited f (heap s r))"
  using assms
  by (simp add: save_video_changes_def save_body_def try_except_def video_update_edited
        seq_tk_calls_ok tk_call_def refresh_video_list_def update_status_def)

text \<open>
  C7, as stated, fails: nothing removes duplicates. Saving the tags string
  \<open>sea, sun, sea\<close> stores the tag \<open>sea\<close> twice.
\<close>

theorem save_tags_duplicates_counterexample:
  "tags_entry new_form = ''sea, sun, sea''
   \<and> raised (save_video_changes 0 new_form pair_queue) = None
   \<and> tags (heap (state_of (save_video_changes 0 new_form pair_queue)) 0) = [''sea'', ''sun'', ''sea'']
   \<and> \<not> distinct (tags (heap (state_of (save_video_changes 0 new_form pair_queue)) 0))"
  by (simp add: pair_queue_def save_defs run_defs bare_stem_def bare_name_def)

lemma join_cons_hd: "join sep ((c # p) # ps) = c # join sep (p # ps)"
  by (cases ps) simp_all

lemma join_comma_split: "join '','' (split_comma str) = str"
proof (induction str)
  case Nil
  show ?case by simp
next
  case (Cons c cs)
  obtain p ps where sp: "split_comma cs = p # ps"
    using split_comma_nonempty[of cs] by (cases "split_comma cs") auto
  show ?case
  proof (cases "c = CHR '',''")
    case True
    then show ?thesis using Cons sp by simp
  next
    case False
    then have "split_comma (c # cs) = (c # p) # ps" by (simp add: sp)
    then show ?thesis using Cons sp by (simp add: join_cons_hd)
  qed
qed

lemma split_comma_join_comma:
  assumes "\<forall>p\<in>set (p0 # ps). CHR '','' \<notin> set p"
  shows "split_comma (join '','' (p0 # ps)) = p0 # ps"
  using assms
proof (induction ps arbitrary: p0)
  case Nil
  then show ?case by (simp add: split_comma_plain)
next
  case (Cons p ps)
  have "join '','' (p0 # p # ps) = p0 @ CHR '','' # join '','' (p # ps)" by simp
  moreover have "CHR '','' \<notin> set p0" using Cons.prems by simp
  ultimately have "split_comma (join '','' (p0 # p # ps)) = p0 # split_comma (join '','' (p # ps))"
    by (metis split_comma_piece)
  moreover have "split_comma (join '','' (p # ps)) = p # ps"
    using Cons.prems by (intro Cons.IH) simp
  ultimately show ?case by simp
qed

lemma parse_tags_pieces:
  assumes "\<forall>p\<in>set ps. CHR '','' \<notin> set p"
  shows "parse_tags (join '','' ps) = filter (\<lambda>t. t \<noteq> []) (map strip ps)"
proof (cases ps)
  case Nil
  then show ?thesis by (simp add: parse_tags_def strip_def)
next
  case (Cons p0 ps')
  have "split_comma (join '','' ps) = ps"
    unfolding Cons using assms Cons by (intro split_comma_join_comma) simp
  then show ?thesis by (simp add: parse_tags_def filter_map comp_def)
qed

text \<open>
  C7, amended. After a save in which no Tk call fails, the stored tags are, for every
  tags string, the trimmed non-empty pieces between its commas, in their order and with
  their repetitions: every string is its comma-free pieces joined by commas, and for
  pieces joined by commas exactly the trimmed pieces that are not empty are stored. So
  every stored tag is non-empty, trimmed and free of commas, and tags of that kind
  joined by \<open>', '\<close> (as the editor form shows them) are stored as they are, as often
  as they occur.
\<close>

theorem save_tags_kept:
  assumes "tk_faults s = []"
  shows "(\<forall>t\<in>set (tags (heap (state_of (save_video_changes r f s)) r)).
            t \<noteq> [] \<and> strip t = t \<and> CHR '','' \<notin> set t)
    \<and> ((\<forall>t\<in>set ts. t \<noteq> [] \<and> strip t = t \<and> CHR '','' \<notin> set t)
         \<and> tags_entry f = join '', '' ts
       \<longrightarrow> tags (heap (state_of (save_video_changes r f s)) r) = ts)
    \<and> ((\<forall>p\<in>set ps. CHR '','' \<notin> set p) \<and> tags_entry f = join '','' ps
       \<longrightarrow> tags (heap (state_of (save_video_changes r f s)) r)
             = filter (\<lambda>t. t \<noteq> []) (map strip ps))
    \<and> join '','' (split_comma (tags_entry f)) = tags_entry f
    \<and> (\<forall>p\<in>set (split_comma (tags_entry f)). CHR '','' \<notin> set p)"
proof -
  have t: "tags (heap (state_of (save_video_changes r f s)) r) = parse_tags (tags_entry f)"
    by (simp add: save_video_changes_ok_heap[OF assms] edited_def)
  have "\<forall>t\<in>set (parse_tags (tags_entry f)). t \<noteq> [] \<and> strip t = t \<and> CHR '','' \<notin> set t"
    by (intro ballI conjI) (erule parse_tags_clean)+
  moreover have "parse_tags (tags_entry f) = ts"
    if "(\<forall>t\<in>set ts. t \<noteq> [] \<and> strip t = t \<and> CHR '','' \<notin> set t) \<and> tags_entry f = join '', '' ts"
    using that parse_tags_join[of ts] by simp
  moreover have "parse_tags (tags_entry f) = filter (\<lambda>t. t \<noteq> []) (map strip ps)"
    if "(\<forall>p\<in>set ps. CHR '','' \<notin> set p) \<and> tags_entry f = join '','' ps"
    using that parse_tags_pieces[of ps] by simp
  moreover have "join '','' (split_comma (tags_entry f)) = tags_entry f"
    by (rule join_comma_split)
  moreover have "\<forall>p\<in>set (split_comma (tags_entry f)). CHR '','' \<notin> set p"
    by (intro ballI) (erule split_comma_no_comma)
  ultimately show ?thesis unfolding t by (intro conjI impI)
qed

theorem save_tags_kept_witness:
  "tk_faults pair_queue = []
   \<and> strip ''sea'' = ''sea'' \<and> strip ''sun'' = ''sun''
   \<and> CHR '','' \<notin> set ''sea'' \<and> CHR '','' \<notin> set ''sun''
   \<and> CHR '','' \<notin> set '' sea'' \<and> CHR '','' \<notin> set '' sun''
   \<and> tags_entry new_form = join '', '' [''sea'', ''sun'', ''sea'']
   \<and> tags_entry new_form = join '','' [''sea'', '' sun'', '' sea'']
   \<and> split_comma (tags_entry new_form) = [''sea'', '' sun'', '' sea'']
   \<and> filter (\<lambda>t. t \<noteq> []) (map strip [''sea'', '' sun'', '' sea'']) = [''sea'', ''sun'', ''sea'']
   \<and> tags (heap (state_of (save_video_changes 0 new_form pair_queue)) 0) = [''sea'', ''sun'', ''sea'']
   \<and> count_list (tags (heap (state_of (save_video_changes 0 new_form pair_queue)) 0)) ''sea'' = 2"
proof -
  have a: "tk_faults pair_queue = []"
    by (simp add: pair_queue_def run_defs)
  have e: "strip ''sea'' = ''sea''" "strip ''sun'' = ''sun''"
      "strip '' sea'' = ''sea''" "strip '' sun'' = ''sun''"
    by (simp_all add: strip_def is_space_def)
  have c: "tags_entry new_form = join '','' [''sea'', '' sun'', '' sea'']"
      "tags_entry new_form = join '', '' [''sea'', ''sun'', ''sea'']"
    by (simp_all add: new_form_def)
  have b: "\<forall>p\<in>set [''sea'', '' sun'', '' sea'']. CHR '','' \<notin> set p"
    by simp
  have g: "filter (\<lambda>t. t \<noteq> []) (map strip [''sea'', '' sun'', '' sea'']) = [''sea'', ''sun'', ''sea'']"
    by (simp add: e)
  have inst: "(\<forall>p\<in>set [''sea'', '' sun'', '' sea'']. CHR '','' \<notin> set p)
        \<and> tags_entry new_form = join '','' [''sea'', '' sun'', '' sea'']
       \<longrightarrow> tags (heap (state_of (save_video_changes 0 new_form pair_queue)) 0)
             = filter (\<lambda>t. t \<noteq> []) (map strip [''sea'', '' sun'', '' sea''])"
    using save_tags_kept[OF a, of 0 new_form "[''sea'', ''sun'', ''sea'']" "[''sea'', '' sun'', '' sea'']"]
    by (elim conjE)
  have d: "tags (heap (state_of (save_video_changes 0 new_form pair_queue)) 0) = [''sea'', ''sun'', ''sea'']"
    using mp[OF inst conjI[OF b c(1)]] unfolding g .
  have h: "split_comma (tags_entry new_form) = [''sea'', '' sun'', '' sea'']"
    by (simp add: new_form_def)
  have f: "count_list [''sea'', ''sun'', ''sea''] ''sea'' = 2" by simp
  show ?thesis
    unfolding d by (intro conjI a e(1,2) c h g refl f) simp_all
qed

subsection \<open>The upload thread\<close>

lemma progress_ok:
  "tk_faults s = [] \<Longrightarrow>
   progress ctk i s = Normal (s\<lparr>progress_bar := bar_value ctk i, trace := trace s @ [bar_effect ctk i]\<rparr>)"
  by (simp add: progress_def bar_set_def bar_configure_def tk_call_def emit_def
        bar_value_def bar_effect_def)

lemma upload_tick_ok:
  "tk_faults s = [] \<Longrightarrow>
   upload_tick ctk i s
     = Normal (s\<lparr>progress_bar := bar_value ctk i, trace := trace s @ [Slept 50, bar_effect ctk i]\<rparr>)"
  by (simp add: upload_tick_def sleep_def emit_def progress_ok update_idletasks_def tk_call_def)

lemma ticks_Suc: "ticks ctk (Suc n) = ticks ctk n @ [Slept 50, bar_effect ctk n]"
  by (simp add: ticks_def)

lemma upload_loop_ok:
  "tk_faults s = [] \<Longrightarrow>
   seq (map (upload_tick ctk) [0..<n]) s
     = Normal (s\<lparr>progress_bar := (if n = 0 then progress_bar s else bar_value ctk (n - 1)),
                  trace := trace s @ ticks ctk n\<rparr>)"
proof (induction n)
  case 0
  then show ?case by (simp add: ticks_def)
next
  case (Suc n)
  have "seq (map (upload_tick ctk) [0..<Suc n]) s
      = upload_tick ctk n
          (s\<lparr>progress_bar := (if n = 0 then progress_bar s else bar_value ctk (n - 1)),
             trace := trace s @ ticks ctk n\<rparr>)"
    by (simp add: seq_append Suc)
  also have "\<dots> = Normal (s\<lparr>progress_bar := bar_value ctk n, trace := trace s @ ticks ctk (Suc n)\<rparr>)"
    using Suc.prems by (simp add: upload_tick_ok ticks_Suc)
  finally show ?case by simp
qed

lemma upload_begin_ok:
  "tk_faults s = [] \<Longrightarrow>
   upload_begin r s = Normal (s\<lparr>heap := (heap s)(r := (heap s r)\<lparr>status := Uploading\<rparr>),
      status_label := ''Uploading: '' @ name (heap s r)\<rparr>)"
  by (simp add: upload_begin_def set_status_def refresh_video_list_def update_status_def tk_call_def)

lemma upload_complete_ok:
  "tk_faults s = [] \<Longrightarrow>
   upload_complete ctk r s = Normal (s\<lparr>heap := (heap s)(r := (heap s r)\<lparr>status := Completed\<rparr>),
      status_label := ''Completed: '' @ name (heap s r), progress_bar := 0,
      trace := trace s @ [bar_effect ctk 0]\<rparr>)"
  by (simp add: upload_complete_def set_status_def refresh_video_list_def update_status_def
        tk_call_def bar_set_def bar_configure_def emit_def bar_effect_def)

lemma upload_body_ok:
  assumes "tk_faults s = []"
  shows "upload_body ctk r s = Normal (s\<lparr>heap := (heap s)(r := (heap s r)\<lparr>status := Completed\<rparr>),
      status_label := ''Completed: '' @ name (heap s r), progress_bar := 0,
      trace := trace s @ ticks ctk 101 @ [bar_effect ctk 0]\<rparr>)"
proof -
  define s1 where "s1 = s\<lparr>heap := (heap s)(r := (heap s r)\<lparr>status := Uploading\<rparr>),
             status_label := ''Uploading: '' @ name (heap s r)\<rparr>"
  define s2 where "s2 = s1\<lparr>progress_bar := bar_value ctk 100, trace := trace s1 @ ticks ctk 101\<rparr>"
  have f1: "tk_faults s1 = []" and f2: "tk_faults s2 = []"
    using assms by (simp_all add: s1_def s2_def)
  have b: "upload_begin r s = Normal s1"
    unfolding s1_def using assms by (rule upload_begin_ok)
  have l: "seq (map (upload_tick ctk) [0..<101]) s1 = Normal s2"
    unfolding s2_def using upload_loop_ok[OF f1, of ctk 101] by simp
  have "upload_body ctk r s = upload_complete ctk r s2"
    unfolding upload_body_def upload_stretches_def by (simp add: seq_append b l)
  also have "\<dots> = Normal (s\<lparr>heap := (heap s)(r := (heap s r)\<lparr>status := Completed\<rparr>),
      status_label := ''Completed: '' @ name (heap s r), progress_bar := 0,
      trace := trace s @ ticks ctk 101 @ [bar_effect ctk 0]\<rparr>)"
    unfolding upload_complete_ok[OF f2] by (simp add: s2_def s1_def)
  finally show ?thesis .
qed

lemma shown_append: "shown (es @ fs) = shown es @ shown fs"
  by (induction es rule: shown.induct) simp_all

lemma slept_append: "slept (es @ fs) = slept es + slept fs"
  by (induction es rule: slept.induct) simp_all

lemma shown_ticks: "shown (ticks ctk n) = map (\<lambda>i. of_nat i / 100) [0..<n]"
  by (induction n) (simp_all add: ticks_Suc shown_append bar_effect_def, simp add: ticks_def)

lemma slept_ticks: "slept (ticks ctk n) = 50 * n"
  by (induction n) (simp_all add: ticks_Suc slept_append bar_effect_def, simp add: ticks_def)

subsection \<open>What the upload thread does not read\<close>

lemma commutes_seq: "(\<And>f. f \<in> set fs \<Longrightarrow> commutes g f) \<Longrightarrow> commutes g (seq fs)"
proof (induction fs)
  case Nil
  show ?case by (simp add: commutes_def)
next
  case (Cons f fs)
  have cf: "\<And>s. f (g s) = map_outcome g (f s)"
    and cs: "\<And>s. seq fs (g s) = map_outcome g (seq fs s)"
    using Cons by (simp_all add: commutes_def)
  show ?case
    unfolding commutes_def
  proof
    fix s
    show "seq (f # fs) (g s) = map_outcome g (seq (f # fs) s)"
      by (cases "f s") (simp_all add: cf cs)
  qed
qed

lemma commutes_try:
  assumes "commutes g body" and "\<And>e. commutes g (handler e)"
  shows "commutes g (try_except body handler)"
  unfolding commutes_def
proof
  fix s
  have b: "body (g s) = map_outcome g (body s)" using assms(1) by (simp add: commutes_def)
  have h: "\<And>e s. handler e (g s) = map_outcome g (handler e s)"
    using assms(2) by (simp add: commutes_def)
  show "try_except body handler (g s) = map_outcome g (try_except body handler s)"
    by (cases "body s") (simp_all add: try_except_def b h)
qed

lemma commutes_fun: "(\<And>s. f (g s) = map_outcome g (f s)) \<Longrightarrow> commutes g f"
  by (simp add: commutes_def)

lemma commutes_tk_call:
  "commutes (set_credentials c) tk_call" "commutes (set_platforms r' p) tk_call"
  by (auto simp: commutes_def tk_call_def set_credentials_def set_platforms_def split: list.splits)

lemma commutes_emit:
  "commutes (set_credentials c) (emit e)" "commutes (set_platforms r' p) (emit e)"
  by (auto simp: commutes_def emit_def set_credentials_def set_platforms_def)

lemma commutes_set_status:
  "commutes (set_credentials c) (set_status r st)" "commutes (set_platforms r' p) (set_status r st)"
  by (auto simp: commutes_def set_status_def set_credentials_def set_platforms_def fun_eq_iff)

lemma commutes_widgets:
  "commutes (set_credentials c) refresh_video_list"
  "commutes (set_platforms r' p) refresh_video_list"
  "commutes (set_credentials c) update_idletasks"
  "commutes (set_platforms r' p) update_idletasks"
  by (simp_all add: refresh_video_list_def update_idletasks_def commutes_tk_call)

lemma commutes_set_label:
  "commutes (set_credentials c) (\<lambda>s. Normal (s\<lparr>status_label := m\<rparr>))"
  "commutes (set_platforms r' p) (\<lambda>s. Normal (s\<lparr>status_label := m\<rparr>))"
  "commutes (set_credentials c) (\<lambda>s. Normal (s\<lparr>progress_bar := q\<rparr>))"
  "commutes (set_platforms r' p) (\<lambda>s. Normal (s\<lparr>progress_bar := q\<rparr>))"
  by (auto simp: commutes_def set_credentials_def set_platforms_def)

lemma commutes_update_status:
  "commutes (set_credentials c) (update_status m)"
  "commutes (set_platforms r' p) (update_status m)"
  unfolding update_status_def
  by (rule commutes_seq; auto simp: commutes_tk_call commutes_set_label)+

lemma commutes_named_status:
  "commutes (set_credentials c) (\<lambda>s. update_status (pre @ name (heap s r)) s)"
  "commutes (set_platforms r' p) (\<lambda>s. update_status (pre @ name (heap s r)) s)"
proof -
  have a: "name (heap (set_credentials c s) r) = name (heap s r)" for s
    by (simp add: set_credentials_def)
  have b: "name (heap (set_platforms r' p s) r) = name (heap s r)" for s
    by (simp add: set_platforms_def)
  show "commutes (set_credentials c) (\<lambda>s. update_status (pre @ name (heap s r)) s)"
    using commutes_update_status(1)[of c] by (simp add: commutes_def a)
  show "commutes (set_platforms r' p) (\<lambda>s. update_status (pre @ name (heap s r)) s)"
    using commutes_update_status(2)[of r' p] by (simp add: commutes_def b)
qed

lemma commutes_bar:
  "commutes (set_credentials c) (bar_set q)" "commutes (set_platforms r' p) (bar_set q)"
  "commutes (set_credentials c) (bar_configure v)" "commutes (set_platforms r' p) (bar_configure v)"
  unfolding bar_set_def bar_configure_def
  by (rule commutes_seq; auto simp: commutes_tk_call commutes_set_label commutes_emit)+

lemma commutes_messagebox:
  "commutes (set_credentials c) (messagebox t)" "commutes (set_platforms r' p) (messagebox t)"
  unfolding messagebox_def
  by (rule commutes_seq; auto simp: commutes_tk_call commutes_emit)+

lemma commutes_upload_begin:
  "commutes (set_credentials c) (upload_begin r)" "commutes (set_platforms r' p) (upload_begin r)"
  unfolding upload_begin_def
  by (rule commutes_seq;
      auto simp: commutes_set_status commutes_widgets commutes_named_status[where pre = "''Uploading: ''", simplified])+

lemma commutes_upload_tick:
  "commutes (set_credentials c) (upload_tick ctk i)" "commutes (set_platforms r' p) (upload_tick ctk i)"
  unfolding upload_tick_def sleep_def progress_def
  by (rule commutes_seq; auto simp: commutes_emit commutes_widgets commutes_bar)+

lemma commutes_upload_complete:
  "commutes (set_credentials c) (upload_complete ctk r)"
  "commutes (set_platforms r' p) (upload_complete ctk r)"
  unfolding upload_complete_def
  by (rule commutes_seq;
      auto simp: commutes_set_status commutes_widgets commutes_bar
        commutes_named_status[where pre = "''Completed: ''", simplified])+

lemma commutes_upload_failed:
  "commutes (set_credentials c) (upload_failed r)" "commutes (set_platforms r' p) (upload_failed r)"
  unfolding upload_failed_def
  by (rule commutes_seq; auto simp: commutes_set_status commutes_widgets commutes_messagebox)+

lemma commutes_upload_thread:
  "commutes (set_credentials c) (upload_thread ctk r)"
  "commutes (set_platforms r' p) (upload_thread ctk r)"
  unfolding upload_thread_def upload_body_def upload_stretches_def
  by (rule commutes_try, rule commutes_seq;
      auto simp: commutes_upload_begin commutes_upload_tick commutes_upload_complete
        commutes_upload_failed simp del: upt_Suc)+

lemma keeps_named_status:
  "keeps heap (\<lambda>s. update_status (m s) s)"
  by (simp add: keeps_def keepsD[OF keeps_update_status(1)])

lemma keeps_bar:
  "keeps heap (bar_set q)" "keeps heap (bar_configure v)"
  unfolding bar_set_def bar_configure_def
  by (rule keeps_seq; auto simp: keeps_tk_call keeps_emit; simp add: keeps_def)+

lemma seq_set_status_heap:
  assumes "\<And>f. f \<in> set fs \<Longrightarrow> keeps heap f"
  shows "heap (state_of (seq (set_status r st # fs) s)) = (heap s)(r := (heap s r)\<lparr>status := st\<rparr>)"
proof -
  have "keeps heap (seq fs)" using assms by (rule keeps_seq)
  then show ?thesis by (simp add: set_status_def keepsD)
qed

lemma upload_begin_heap:
  "heap (state_of (upload_begin r s)) = (heap s)(r := (heap s r)\<lparr>status := Uploading\<rparr>)"
  unfolding upload_begin_def
  by (rule seq_set_status_heap) (auto simp: keeps_widgets keeps_named_status)

lemma upload_complete_heap:
  "heap (state_of (upload_complete ctk r s)) = (heap s)(r := (heap s r)\<lparr>status := Completed\<rparr>)"
  unfolding upload_complete_def
  by (rule seq_set_status_heap) (auto simp: keeps_widgets keeps_named_status keeps_bar)

lemma upload_failed_heap:
  "heap (state_of (upload_failed r s)) = (heap s)(r := (heap s r)\<lparr>status := Failed\<rparr>)"
  unfolding upload_failed_def
  by (rule seq_set_status_heap) (auto simp: keeps_widgets keeps_messagebox)

lemma upload_thread_raised:
  assumes "raised (upload_body ctk r s) \<noteq> None"
  shows "status (heap (state_of (upload_thread ctk r s)) r) = Failed"
proof -
  obtain e s1 where "upload_body ctk r s = Raised e s1"
    using assms by (cases "upload_body ctk r s") auto
  then have "upload_thread ctk r s = upload_failed r s1"
    by (simp add: upload_thread_def try_except_def)
  then show ?thesis by (simp add: upload_failed_heap)
qed

lemma upload_thread_normal:
  assumes "raised (upload_body ctk r s) = None"
  shows "status (heap (state_of (upload_thread ctk r s)) r) = Completed"
proof -
  define pre where "pre = upload_begin r # map (upload_tick ctk) [0..<101]"
  have body: "upload_body ctk r s = seq (pre @ [upload_complete ctk r]) s"
    by (simp add: upload_body_def upload_stretches_def pre_def)
  obtain s1 where s1: "seq pre s = Normal s1"
    using assms unfolding body seq_append by (cases "seq pre s") auto
  have "upload_body ctk r s = upload_complete ctk r s1"
    unfolding body seq_append by (simp add: s1)
  moreover have "state_of (upload_thread ctk r s) = state_of (upload_body ctk r s)"
    using assms by (cases "upload_body ctk r s") (simp_all add: upload_thread_def try_except_def)
  ultimately show ?thesis by (simp add: upload_complete_heap)
qed

lemma keeps_upload_tick: "keeps heap (upload_tick ctk i)"
  unfolding upload_tick_def sleep_def progress_def
  by (rule keeps_seq) (auto simp: keeps_emit keeps_bar keeps_widgets)

lemma upload_stretches_length: "length (upload_stretches ctk r) = 103"
  by (simp add: upload_stretches_def)

lemma upload_body_after: "upload_body ctk r = upload_after 103 ctk r"
  by (simp add: upload_body_def upload_after_def upload_stretches_length)

lemma upload_thread_after:
  "upload_thread ctk r s = try_except (upload_after 103 ctk r) (\<lambda>e. upload_failed r) s"
  by (simp add: upload_thread_def upload_body_after)

lemma seq_cons_keeps:
  assumes "\<And>f. f \<in> set fs \<Longrightarrow> keeps g f"
  shows "g (state_of (seq (f0 # fs) s)) = g (state_of (f0 s))"
proof -
  have k: "keeps g (seq fs)" using assms by (rule keeps_seq)
  show ?thesis by (cases "f0 s") (simp_all add: keepsD[OF k])
qed

lemma upload_after_Suc:
  assumes "k \<le> 101"
  shows "upload_after (Suc k) ctk r = seq (upload_begin r # map (upload_tick ctk) [0..<k])"
proof -
  have "take k (map (upload_tick ctk) [0..<101] @ [upload_complete ctk r])
      = map (upload_tick ctk) [0..<k]"
    using assms by (simp add: take_map min_def del: upt_Suc)
  then show ?thesis by (simp add: upload_after_def upload_stretches_def del: upt_Suc)
qed

lemma upload_after_heap:
  assumes "1 \<le> k" "k \<le> 102"
  shows "heap (state_of (upload_after k ctk r s)) = (heap s)(r := (heap s r)\<lparr>status := Uploading\<rparr>)"
proof -
  obtain j where j: "k = Suc j" "j \<le> 101"
    using assms by (cases k) auto
  have "heap (state_of (seq (upload_begin r # map (upload_tick ctk) [0..<j]) s))
      = heap (state_of (upload_begin r s))"
    by (rule seq_cons_keeps) (auto simp: keeps_upload_tick)
  then show ?thesis
    by (simp add: j upload_after_Suc upload_begin_heap)
qed

lemma keeps_heap_at: "keeps heap f \<Longrightarrow> keeps (\<lambda>s. heap s v) f"
  by (simp add: keeps_def)

lemma keeps_set_status_other: "v \<noteq> r \<Longrightarrow> keeps (\<lambda>s. heap s v) (set_status r st)"
  by (simp add: keeps_def set_status_def)

lemma keeps_stretches_other:
  assumes "v \<noteq> r"
  shows "keeps (\<lambda>s. heap s v) (upload_begin r)"
    and "keeps (\<lambda>s. heap s v) (upload_tick ctk i)"
    and "keeps (\<lambda>s. heap s v) (upload_complete ctk r)"
    and "keeps (\<lambda>s. heap s v) (upload_failed r)"
proof -
  have st: "keeps (\<lambda>s. heap s v) (set_status r st)" for st
    using assms by (rule keeps_set_status_other)
  have w: "keeps (\<lambda>s. heap s v) refresh_video_list"
    by (rule keeps_heap_at) (rule keeps_widgets)
  have n: "keeps (\<lambda>s. heap s v) (\<lambda>s. update_status (m s) s)" for m
    by (rule keeps_heap_at) (rule keeps_named_status)
  have b: "keeps (\<lambda>s. heap s v) (bar_set q)" "keeps (\<lambda>s. heap s v) (bar_configure n)" for q n
    by (rule keeps_heap_at, rule keeps_bar)+
  have mb: "keeps (\<lambda>s. heap s v) (messagebox t)" for t
    by (rule keeps_heap_at) (rule keeps_messagebox)
  show "keeps (\<lambda>s. heap s v) (upload_begin r)"
    unfolding upload_begin_def
    by (rule keeps_seq) (use st w n[of "\<lambda>s. ''Uploading: '' @ name (heap s r)"] in auto)
  show "keeps (\<lambda>s. heap s v) (upload_tick ctk i)"
    by (rule keeps_heap_at) (rule keeps_upload_tick)
  show "keeps (\<lambda>s. heap s v) (upload_complete ctk r)"
    unfolding upload_complete_def
    by (rule keeps_seq) (use st w b n[of "\<lambda>s. ''Completed: '' @ name (heap s r)"] in auto)
  show "keeps (\<lambda>s. heap s v) (upload_failed r)"
    unfolding upload_failed_def
    by (rule keeps_seq) (use st w mb in auto)
qed

lemma keeps_upload_stretches_other:
  assumes "v \<noteq> r" "f \<in> set (upload_stretches ctk r)"
  shows "keeps (\<lambda>s. heap s v) f"
  using assms(2) keeps_stretches_other[OF assms(1)]
  by (auto simp: upload_stretches_def simp del: upt_Suc)

lemma upload_after_other:
  assumes "v \<noteq> r"
  shows "heap (state_of (upload_after k ctk r s)) v = heap s v"
proof -
  have "keeps (\<lambda>s. heap s v) (upload_after k ctk r)"
    unfolding upload_after_def
    by (rule keeps_seq) (auto dest!: in_set_takeD intro: keeps_upload_stretches_other[OF assms])
  then show ?thesis by (simp add: keeps_def)
qed

lemma upload_thread_other:
  assumes "v \<noteq> r"
  shows "heap (state_of (upload_thread ctk r s)) v = heap s v"
proof -
  have "keeps (\<lambda>s. heap s v) (upload_body ctk r)"
    unfolding upload_body_def
    by (rule keeps_seq) (rule keeps_upload_stretches_other[OF assms])
  then have "keeps (\<lambda>s. heap s v) (upload_thread ctk r)"
    unfolding upload_thread_def
    by (rule keeps_try) (rule keeps_stretches_other(4)[OF assms])
  then show ?thesis by (simp add: keeps_def)
qed

lemma upload_thread_terminal:
  "status (heap (state_of (upload_thread ctk r s)) r) = Completed
   \<or> status (heap (state_of (upload_thread ctk r s)) r) = Failed"
  using upload_thread_normal[of ctk r s] upload_thread_raised[of ctk r s]
  by (cases "raised (upload_body ctk r s) = None") simp_all

lemma upload_single_video_start:
  "upload_single_video r s = Normal (s\<lparr>trace := trace s @ [Started (UploadThread r)]\<rparr>)"
  by (simp add: upload_single_video_def emit_def)

lemma upload_after_one: "upload_after 1 ctk r s = upload_begin r s"
  using upload_after_Suc[of 0 ctk r] by simp

text \<open>
  C5. \<open>upload_single_video\<close> starts one thread, which runs \<open>upload_thread\<close>, and
  does nothing else. The body of that thread is its 103 stretches; after the first and
  until the loop is done the status of the video is \<open>uploading\<close>. When no Tk call
  fails the thread ends without an exception; all it does to the outside is 101 times
  sleeping 50 milliseconds and moving the progress bar, from 0 in steps of one hundredth
  to 1, and at the end moving the bar back to 0: 5050 milliseconds of sleep, no message
  box, no other thread, nothing else. When the body of its \<open>try\<close> completes the status
  is \<open>completed\<close>; when the body raises, it is \<open>failed\<close>. The thread reads neither
  the credentials nor the platform selection of any video: with others, it does the same.
\<close>

theorem upload_thread_simulation:
  "upload_single_video r s = Normal (s\<lparr>trace := trace s @ [Started (UploadThread r)]\<rparr>)
   \<and> thread_body ctk (UploadThread r) s = upload_thread ctk r s
   \<and> upload_thread ctk r s = try_except (upload_after 103 ctk r) (\<lambda>e. upload_failed r) s
   \<and> upload_body ctk r s = upload_after 103 ctk r s
   \<and> upload_after 1 ctk r s = upload_begin r s
   \<and> (1 \<le> k \<and> k \<le> 102 \<longrightarrow> status (heap (state_of (upload_after k ctk r s)) r) = Uploading)
   \<and> status (heap (state_of (upload_begin r s)) r) = Uploading
   \<and> (tk_faults s = [] \<longrightarrow>
        raised (upload_thread ctk r s) = None
      \<and> trace (state_of (upload_thread ctk r s))
          = trace s
            @ concat (map (\<lambda>i. [Slept 50, if ctk then BarSet (of_nat i / 100) else BarValue i]) [0..<101])
            @ [if ctk then BarSet 0 else BarValue 0]
      \<and> shown (drop (length (trace s)) (trace (state_of (upload_thread ctk r s))))
          = map (\<lambda>i. of_nat i / 100) [0..<101] @ [0]
      \<and> slept (drop (length (trace s)) (trace (state_of (upload_thread ctk r s)))) = 5050)
   \<and> (raised (upload_body ctk r s) = None \<longrightarrow>
        status (heap (state_of (upload_thread ctk r s)) r) = Completed)
   \<and> (raised (upload_body ctk r s) \<noteq> None \<longrightarrow>
        status (heap (state_of (upload_thread ctk r s)) r) = Failed)
   \<and> upload_thread ctk r (s\<lparr>credentials := c\<rparr>)
        = map_outcome (\<lambda>s. s\<lparr>credentials := c\<rparr>) (upload_thread ctk r s)
   \<and> upload_thread ctk r (s\<lparr>heap := (heap s)(v := (heap s v)\<lparr>platforms := p\<rparr>)\<rparr>)
        = map_outcome (\<lambda>s. s\<lparr>heap := (heap s)(v := (heap s v)\<lparr>platforms := p\<rparr>)\<rparr>)
            (upload_thread ctk r s)"
proof (intro conjI impI)
  show "upload_single_video r s = Normal (s\<lparr>trace := trace s @ [Started (UploadThread r)]\<rparr>)"
    by (rule upload_single_video_start)
next
  show "thread_body ctk (UploadThread r) s = upload_thread ctk r s"
    by simp
next
  show "upload_thread ctk r s = try_except (upload_after 103 ctk r) (\<lambda>e. upload_failed r) s"
    by (rule upload_thread_after)
next
  show "upload_body ctk r s = upload_after 103 ctk r s"
    by (simp add: upload_body_after)
next
  show "upload_after 1 ctk r s = upload_begin r s"
    by (rule upload_after_one)
next
  assume "1 \<le> k \<and> k \<le> 102"
  then show "status (heap (state_of (upload_after k ctk r s)) r) = Uploading"
    by (simp add: upload_after_heap)
next
  show "status (heap (state_of (upload_begin r s)) r) = Uploading"
    by (simp add: upload_begin_heap)
next
  assume f: "tk_faults s = []"
  have t: "upload_thread ctk r s = Normal (s\<lparr>heap := (heap s)(r := (heap s r)\<lparr>status := Completed\<rparr>),
      status_label := ''Completed: '' @ name (heap s r), progress_bar := 0,
      trace := trace s @ ticks ctk 101 @ [bar_effect ctk 0]\<rparr>)"
    by (simp add: upload_thread_def try_except_def upload_body_ok[OF f])
  show "raised (upload_thread ctk r s) = None"
    by (simp add: t)
  show "trace (state_of (upload_thread ctk r s))
          = trace s
            @ concat (map (\<lambda>i. [Slept 50, if ctk then BarSet (of_nat i / 100) else BarValue i]) [0..<101])
            @ [if ctk then BarSet 0 else BarValue 0]"
    unfolding t by (simp add: ticks_def bar_effect_def del: upt_Suc)
  show "shown (drop (length (trace s)) (trace (state_of (upload_thread ctk r s))))
          = map (\<lambda>i. of_nat i / 100) [0..<101] @ [0]"
    unfolding t by (simp add: shown_append shown_ticks bar_effect_def del: upt_Suc)
  show "slept (drop (length (trace s)) (trace (state_of (upload_thread ctk r s)))) = 5050"
    unfolding t by (simp add: slept_append slept_ticks bar_effect_def del: upt_Suc)
next
  assume "raised (upload_body ctk r s) = None"
  then show "status (heap (state_of (upload_thread ctk r s)) r) = Completed"
    by (rule upload_thread_normal)
next
  assume "raised (upload_body ctk r s) \<noteq> None"
  then show "status (heap (state_of (upload_thread ctk r s)) r) = Failed"
    by (rule upload_thread_raised)
next
  show "upload_thread ctk r (s\<lparr>credentials := c\<rparr>)
        = map_outcome (\<lambda>s. s\<lparr>credentials := c\<rparr>) (upload_thread ctk r s)"
    using commutes_upload_thread(1)[of c ctk r]
    by (simp add: commutes_def set_credentials_def[abs_def])
next
  show "upload_thread ctk r (s\<lparr>heap := (heap s)(v := (heap s v)\<lparr>platforms := p\<rparr>)\<rparr>)
        = map_outcome (\<lambda>s. s\<lparr>heap := (heap s)(v := (heap s v)\<lparr>platforms := p\<rparr>)\<rparr>)
            (upload_thread ctk r s)"
    using commutes_upload_thread(2)[of v p ctk r]
    by (simp add: commutes_def set_platforms_def[abs_def])
qed

lemma clip_queue_faults: "tk_faults clip_queue = []"
  by (simp add: clip_queue_def run_defs)

lemma clip_queue_trace: "trace clip_queue = []"
  by (simp add: clip_queue_def run_defs)

lemma clip_faulty_raised: "raised (upload_body True 0 clip_faulty) = Some TclError"
  by (simp add: upload_body_def upload_stretches_def upload_begin_def set_status_def refresh_video_list_def
        tk_call_def clip_faulty_def del: upt_Suc)

theorem upload_thread_simulation_witness:
  "tk_faults clip_queue = []
   \<and> (1::nat) \<le> 50 \<and> (50::nat) \<le> 102
   \<and> status (heap clip_queue 0) = Pending
   \<and> threads_started (trace (state_of (upload_single_video 0 clip_queue))) = [UploadThread 0]
   \<and> thread_body True (UploadThread 0) clip_queue = upload_thread True 0 clip_queue
   \<and> status (heap (state_of (upload_after 50 True 0 clip_queue)) 0) = Uploading
   \<and> raised (upload_body True 0 clip_queue) = None
   \<and> raised (upload_thread True 0 clip_queue) = None
   \<and> status (heap (state_of (upload_thread True 0 clip_queue)) 0) = Completed
   \<and> slept (drop (length (trace clip_queue)) (trace (state_of (upload_thread True 0 clip_queue)))) = 5050
   \<and> raised (upload_body True 0 clip_faulty) \<noteq> None
   \<and> status (heap (state_of (upload_thread True 0 clip_faulty)) 0) = Failed"
proof -
  note T = upload_thread_simulation[of 0 clip_queue True 50]
  note F = upload_thread_simulation[of 0 clip_faulty True 50]
  have a: "tk_faults clip_queue = []" by (rule clip_queue_faults)
  have b: "raised (upload_body True 0 clip_queue) = None"
    by (simp add: upload_body_ok[OF a])
  have c: "raised (upload_body True 0 clip_faulty) \<noteq> None"
    by (simp add: clip_faulty_raised)
  have d: "status (heap clip_queue 0) = Pending"
    by (simp add: clip_queue_def run_defs)
  have e: "threads_started (trace (state_of (upload_single_video 0 clip_queue))) = [UploadThread 0]"
    unfolding T[THEN conjunct1] by (simp add: clip_queue_trace)
  have f: "thread_body True (UploadThread 0) clip_queue = upload_thread True 0 clip_queue"
    by (rule T[THEN conjunct2, THEN conjunct1])
  have g: "status (heap (state_of (upload_after 50 True 0 clip_queue)) 0) = Uploading"
    using T[THEN conjunct2, THEN conjunct2, THEN conjunct2, THEN conjunct2, THEN conjunct2,
        THEN conjunct1] by simp
  note T8 = T[THEN conjunct2, THEN conjunct2, THEN conjunct2, THEN conjunct2, THEN conjunct2,
        THEN conjunct2, THEN conjunct2, THEN conjunct1, THEN mp, OF a]
  have h: "raised (upload_thread True 0 clip_queue) = None"
    by (rule T8[THEN conjunct1])
  have i: "slept (drop (length (trace clip_queue)) (trace (state_of (upload_thread True 0 clip_queue)))) = 5050"
    by (rule T8[THEN conjunct2, THEN conjunct2, THEN conjunct2])
  have j: "status (heap (state_of (upload_thread True 0 clip_queue)) 0) = Completed"
    by (rule T[THEN conjunct2, THEN conjunct2, THEN conjunct2, THEN conjunct2, THEN conjunct2,
        THEN conjunct2, THEN conjunct2, THEN conjunct2, THEN conjunct1, THEN mp, OF b])
  have l: "status (heap (state_of (upload_thread True 0 clip_faulty)) 0) = Failed"
    by (rule F[THEN conjunct2, THEN conjunct2, THEN conjunct2, THEN conjunct2, THEN conjunct2,
        THEN conjunct2, THEN conjunct2, THEN conjunct2, THEN conjunct2, THEN conjunct1, THEN mp, OF c])
  show ?thesis
    by (intro conjI a b c d e f g h i j l) simp_all
qed

subsection \<open>Writes to the status\<close>

lemma clip_completed_status: "status (heap clip_completed 0) = Completed"
  unfolding clip_completed_def
  by (rule upload_thread_normal) (simp add: upload_body_ok clip_queue_faults)

lemma clip_failed_status: "status (heap clip_failed 0) = Failed"
  unfolding clip_failed_def
  by (rule upload_thread_raised) (simp add: clip_faulty_raised)

lemma threads_started_ticks: "threads_started (ticks ctk n) = []"
  by (induction n) (simp_all add: ticks_Suc threads_started_append bar_effect_def, simp add: ticks_def)

lemma clip_completed_eq:
  "clip_completed = clip_queue\<lparr>heap := (heap clip_queue)(0 := (heap clip_queue 0)\<lparr>status := Completed\<rparr>),
      status_label := ''Completed: '' @ name (heap clip_queue 0), progress_bar := 0,
      trace := ticks True 101 @ [bar_effect True 0]\<rparr>"
  by (simp add: clip_completed_def upload_thread_def try_except_def
        upload_body_ok[OF clip_queue_faults] clip_queue_trace)

lemma clip_again_facts:
  "tk_faults clip_again = []" "status (heap clip_again 0) = Completed"
  "threads_started (trace clip_again) = [UploadThread 0]"
  by (simp_all add: clip_again_def upload_single_video_start clip_completed_eq clip_queue_faults
        threads_started_append threads_started_ticks bar_effect_def)

lemma clip_retry_status: "status (heap clip_retry 0) = Failed"
  by (simp add: clip_retry_def upload_single_video_start clip_failed_status)

text \<open>
  C1, as stated, fails: nothing in \<open>upload_single_video\<close> or in the thread it
  starts looks at the status. Pressed on the video whose upload has completed, it starts
  an upload thread; that thread runs \<open>upload_thread\<close>, whose body is the 103
  stretches, and after the first of them the status is back at \<open>uploading\<close>.
  Likewise on the video whose upload has failed.
\<close>

theorem upload_begin_regress_counterexample:
  "status (heap clip_completed 0) = Completed
   \<and> clip_again = state_of (upload_single_video 0 clip_completed)
   \<and> threads_started (trace clip_again) = [UploadThread 0]
   \<and> thread_body True (UploadThread 0) = upload_thread True 0
   \<and> upload_thread True 0 clip_again = upload_body True 0 clip_again
   \<and> upload_body True 0 = upload_after 103 True 0
   \<and> status (heap clip_again 0) = Completed
   \<and> status (heap (state_of (upload_after 1 True 0 clip_again)) 0) = Uploading
   \<and> rank (status (heap (state_of (upload_after 1 True 0 clip_again)) 0))
       < rank (status (heap clip_again 0))
   \<and> status (heap (state_of (upload_begin 0 clip_completed)) 0) = Uploading
   \<and> status (heap clip_retry 0) = Failed
   \<and> status (heap (state_of (upload_after 1 True 0 clip_retry)) 0) = Uploading"
proof -
  have a: "upload_thread True 0 clip_again = upload_body True 0 clip_again"
    by (simp add: upload_thread_def try_except_def upload_body_ok[OF clip_again_facts(1)])
  have b: "thread_body True (UploadThread 0) = upload_thread True 0"
    by (rule ext) simp
  have c: "status (heap (state_of (upload_after (Suc 0) True 0 s)) 0) = Uploading" for s
    by (simp add: upload_after_heap)
  have d: "clip_again = state_of (upload_single_video 0 clip_completed)"
    by (simp add: clip_again_def)
  show ?thesis
    unfolding d[symmetric]
    by (simp add: clip_completed_status clip_again_facts a b c upload_body_after
          upload_begin_heap clip_retry_status)
qed

lemma keeps_remove_video: "keeps heap (remove_video r confirm)"
proof -
  have a: "keeps heap (videos_remove r)"
    by (auto simp: keeps_def videos_remove_def split: option.splits)
  have b: "keeps heap (seq [videos_remove r, refresh_video_list, show_default_editor_message,
                         \<lambda>s. update_status (''Removed: '' @ name (heap s r)) s])"
    by (rule keeps_seq) (auto simp: a keeps_widgets keeps_named_status[where m = "\<lambda>s. ''Removed: '' @ name (heap s r)", simplified])
  have c: "keeps heap (\<lambda>s. if confirm
               then seq [videos_remove r, refresh_video_list, show_default_editor_message,
                         \<lambda>s. update_status (''Removed: '' @ name (heap s r)) s] s
               else Normal s)"
    using b by (simp add: keeps_def)
  show ?thesis
    unfolding remove_video_def
    by (rule keeps_seq) (use c in \<open>auto simp: keeps_messagebox\<close>)
qed

lemma save_video_changes_status:
  "status (heap (state_of (save_video_changes r f s)) v) = status (heap s v)"
  by (cases r f s rule: save_body_cases)
     (auto simp: save_video_changes_heap edited_def)

lemma upload_all_videos_heap: "heap (state_of (upload_all_videos s)) = heap s"
  by (simp add: upload_all_videos_def keepsD[OF keeps_messagebox(1)] emit_def)

lemma add_videos_old:
  "v < next_ref s \<Longrightarrow> heap (state_of (add_videos pn ps files s)) v = heap s v"
  by (cases "raised (tk_call s) = None")
     (simp_all add: add_videos_ok add_videos_fail fold_append_video_old)

text \<open>
  C1, amended. Only the upload thread writes the status. \<open>add_videos\<close> leaves the
  dictionaries that exist as they are, \<open>save_video_changes\<close> leaves every status as it
  is, and \<open>remove_video\<close>, \<open>upload_single_video\<close> (which only starts the thread
  that runs \<open>upload_thread\<close>), \<open>upload_all_videos\<close>, its thread and the iterations of
  the upload loop change no dictionary. The body of \<open>upload_thread\<close> is its 103
  stretches: whatever the status of its video was and whatever fails, after the first
  stretch and until the loop is done the status is \<open>uploading\<close>; when the thread has
  ended it is \<open>completed\<close> or \<open>failed\<close>; at no moment has the thread changed
  another video.
\<close>

theorem status_writes:
  "(\<forall>v. v < next_ref s \<longrightarrow> heap (state_of (add_videos pn ps files s)) v = heap s v)
   \<and> (\<forall>v. status (heap (state_of (save_video_changes r f s)) v) = status (heap s v))
   \<and> heap (state_of (remove_video r confirm s)) = heap s
   \<and> heap (state_of (upload_single_video r s)) = heap s
   \<and> heap (state_of (upload_all_videos s)) = heap s
   \<and> heap (state_of (upload_all_thread vs s)) = heap s
   \<and> heap (state_of (upload_tick ctk i s)) = heap s
   \<and> status (heap (state_of (upload_begin r s)) r) = Uploading
   \<and> status (heap (state_of (upload_complete ctk r s)) r) = Completed
   \<and> status (heap (state_of (upload_failed r s)) r) = Failed
   \<and> (\<forall>v. v \<noteq> r \<longrightarrow>
          heap (state_of (upload_begin r s)) v = heap s v
        \<and> heap (state_of (upload_complete ctk r s)) v = heap s v
        \<and> heap (state_of (upload_failed r s)) v = heap s v
        \<and> heap (state_of (upload_after k ctk r s)) v = heap s v
        \<and> heap (state_of (upload_thread ctk r s)) v = heap s v)
   \<and> upload_single_video r s = Normal (s\<lparr>trace := trace s @ [Started (UploadThread r)]\<rparr>)
   \<and> thread_body ctk (UploadThread r) s = upload_thread ctk r s
   \<and> upload_thread ctk r s = try_except (upload_after 103 ctk r) (\<lambda>e. upload_failed r) s
   \<and> upload_body ctk r s = upload_after 103 ctk r s
   \<and> (1 \<le> k \<and> k \<le> 102 \<longrightarrow> status (heap (state_of (upload_after k ctk r s)) r) = Uploading)
   \<and> (status (heap (state_of (upload_thread ctk r s)) r) = Completed
      \<or> status (heap (state_of (upload_thread ctk r s)) r) = Failed)"
proof -
  have old:
    "\<forall>v. v < next_ref s \<longrightarrow> heap (state_of (add_videos pn ps files s)) v = heap s v"
    "\<forall>v. status (heap (state_of (save_video_changes r f s)) v) = status (heap s v)"
    "heap (state_of (remove_video r confirm s)) = heap s"
    "heap (state_of (upload_single_video r s)) = heap s"
    "heap (state_of (upload_all_videos s)) = heap s"
    "heap (state_of (upload_all_thread vs s)) = heap s"
    "heap (state_of (upload_tick ctk i s)) = heap s"
    "status (heap (state_of (upload_begin r s)) r) = Uploading"
    "status (heap (state_of (upload_complete ctk r s)) r) = Completed"
    "status (heap (state_of (upload_failed r s)) r) = Failed"
    by (simp_all add: add_videos_old save_video_changes_status keepsD[OF keeps_remove_video]
        upload_single_video_def emit_def upload_all_videos_heap upload_all_thread_trace
        keepsD[OF keeps_upload_tick] upload_begin_heap upload_complete_heap upload_failed_heap)
  have others: "\<forall>v. v \<noteq> r \<longrightarrow>
          heap (state_of (upload_begin r s)) v = heap s v
        \<and> heap (state_of (upload_complete ctk r s)) v = heap s v
        \<and> heap (state_of (upload_failed r s)) v = heap s v
        \<and> heap (state_of (upload_after k ctk r s)) v = heap s v
        \<and> heap (state_of (upload_thread ctk r s)) v = heap s v"
    by (simp add: upload_begin_heap upload_complete_heap upload_failed_heap
          upload_after_other upload_thread_other)
  have mid: "1 \<le> k \<and> k \<le> 102 \<longrightarrow> status (heap (state_of (upload_after k ctk r s)) r) = Uploading"
    by (simp add: upload_after_heap)
  have link: "upload_single_video r s = Normal (s\<lparr>trace := trace s @ [Started (UploadThread r)]\<rparr>)"
      "thread_body ctk (UploadThread r) s = upload_thread ctk r s"
      "upload_thread ctk r s = try_except (upload_after 103 ctk r) (\<lambda>e. upload_failed r) s"
      "upload_body ctk r s = upload_after 103 ctk r s"
    by (simp_all add: upload_single_video_start upload_thread_after[symmetric] upload_body_after)
  show ?thesis
    by (intro conjI old others mid link upload_thread_terminal)
qed

theorem status_writes_witness:
  "(0::nat) < next_ref pair_queue \<and> (1::nat) \<noteq> 0 \<and> (1::nat) \<le> 50 \<and> (50::nat) \<le> 102
   \<and> heap (state_of (add_videos bare_name bare_stem [''c.mp4''] pair_queue)) 0 = heap pair_queue 0
   \<and> heap (state_of (upload_begin 0 pair_queue)) 1 = heap pair_queue 1
   \<and> heap (state_of (upload_thread True 0 pair_queue)) 1 = heap pair_queue 1
   \<and> status (heap pair_queue 0) = Pending
   \<and> status (heap (state_of (upload_begin 0 pair_queue)) 0) = Uploading
   \<and> status (heap (state_of (upload_after 50 True 0 pair_queue)) 0) = Uploading"
proof -
  have a: "(0::nat) < next_ref pair_queue" and b: "status (heap pair_queue 0) = Pending"
    by (simp_all add: pair_queue_def run_defs)
  note T = status_writes[of pair_queue bare_name bare_stem "[''c.mp4'']" 0 _ _ _ True _ 50]
  have c: "heap (state_of (add_videos bare_name bare_stem [''c.mp4''] pair_queue)) 0 = heap pair_queue 0"
    using T[THEN conjunct1] a by simp
  have d: "heap (state_of (upload_begin 0 pair_queue)) 1 = heap pair_queue 1"
      "heap (state_of (upload_thread True 0 pair_queue)) 1 = heap pair_queue 1"
    using T[THEN conjunct2, THEN conjunct2, THEN conjunct2, THEN conjunct2, THEN conjunct2, THEN conjunct2, THEN conjunct2, THEN conjunct2, THEN conjunct2, THEN conjunct2, THEN conjunct1] by simp_all
  have e: "status (heap (state_of (upload_begin 0 pair_queue)) 0) = Uploading"
    by (rule T[THEN conjunct2, THEN conjunct2, THEN conjunct2, THEN conjunct2, THEN conjunct2, THEN conjunct2, THEN conjunct2, THEN conjunct1])
  have f: "status (heap (state_of (upload_after 50 True 0 pair_queue)) 0) = Uploading"
    using T[THEN conjunct2, THEN conjunct2, THEN conjunct2, THEN conjunct2, THEN conjunct2, THEN conjunct2, THEN conjunct2, THEN conjunct2, THEN conjunct2, THEN conjunct2, THEN conjunct2, THEN conjunct2, THEN conjunct2, THEN conjunct2, THEN conjunct2, THEN conjunct1] by simp
  show ?thesis using a b c d e f by simp
qed

end
